theory Spec2Isabelle
  imports Main
begin

section \<open>Data model (types.ts)\<close>

text \<open>
  The interfaces of \<^verbatim>\<open>types.ts\<close> become records, the two string-literal unions
  become datatypes. Names that Isabelle cannot take twice carry a prefix: the audit
  entry's \<^verbatim>\<open>status\<close> is \<open>entry_status\<close>, the two \<^verbatim>\<open>'error'\<close> literals are
  \<open>log_error\<close> and \<open>agent_error\<close>, the patient's \<^verbatim>\<open>id\<close> is \<open>patient_id\<close>.
\<close>

record Demographics =
  name :: string
  dob :: string
  nhs_number :: string

record LabResult =
  test :: string
  lab_value :: string
  lab_status :: string

record MedicationChange =
  medication :: string
  dose :: string
  frequency :: string
  med_status :: string

record Patient =
  patient_id :: string
  demographics :: Demographics
  admission_reason :: string
  clinical_notes :: string
  lab_results :: "LabResult list"
  medication_changes :: "MedicationChange list"

datatype AuditLogStatus = pending | in_progress | completed | log_error | human_input

record AuditLogEntry =
  step :: string
  entry_status :: AuditLogStatus
  details :: string
  timestamp :: string

datatype AgentStatus = idle | running | awaiting_approval | editing | finished | agent_error

record AgentState =
  patientId :: "string option"
  patientData :: "Patient option"
  synthesizedNotes :: string
  draftSummary :: string
  finalSummary :: string
  auditLog :: "AuditLogEntry list"
  status :: AgentStatus
  error :: "string option"
  editRequest :: string

section \<open>Collaborators\<close>

text \<open>
  \<^verbatim>\<open>getPatientData\<close>, \<^verbatim>\<open>synthesizeClinicalData\<close> and \<^verbatim>\<open>generateDraftSummary\<close> are
  imported by \<^verbatim>\<open>App.tsx\<close>; they are parameters here. A promise that rejects is
  \<open>Inl\<close> of the message (\<^verbatim>\<open>e.message\<close>), one that resolves is \<open>Inr\<close> of the text.
  \<^verbatim>\<open>generateDraftSummary\<close> receives \<^verbatim>\<open>state.patientData!\<close>, which is the field as it
  stands, so its second argument is an option. \<^verbatim>\<open>new Date().toLocaleTimeString()\<close>
  is read when an entry is appended; the clock is a parameter indexed by the number of
  entries the log holds at that moment.
\<close>

record collaborators =
  getPatientData :: "string \<Rightarrow> Patient option"
  synthesizeClinicalData :: "Patient \<Rightarrow> string + string"
  generateDraftSummary :: "string \<Rightarrow> Patient option \<Rightarrow> string \<Rightarrow> string + string"
  toLocaleTimeString :: "nat \<Rightarrow> string"

section \<open>State updaters of App.tsx\<close>

definition INITIAL_STATE :: AgentState where
  "INITIAL_STATE =
     \<lparr>patientId = None, patientData = None, synthesizedNotes = [], draftSummary = [],
      finalSummary = [], auditLog = [], status = idle, error = None, editRequest = []\<rparr>"

definition ALL_WORKFLOW_STEPS :: "string list" where
  "ALL_WORKFLOW_STEPS =
     [''Start Workflow'', ''Retrieve Patient Data'', ''Synthesize Clinical Notes'',
      ''Generate Draft Summary'', ''Human Review'', ''Finalize Summary'',
      ''Workflow Complete'']"

text \<open>
  The updater that \<^verbatim>\<open>addAuditLog\<close> hands to \<^verbatim>\<open>setState\<close>. Every call in \<^verbatim>\<open>App.tsx\<close> passes
  the status, so the default \<^verbatim>\<open>'completed'\<close> of the third parameter is never used.
\<close>

definition addAuditLog ::
    "collaborators \<Rightarrow> string \<Rightarrow> string \<Rightarrow> AuditLogStatus \<Rightarrow> AgentState \<Rightarrow> AgentState" where
  "addAuditLog env stepName dtls st prevState =
     prevState\<lparr>auditLog := auditLog prevState @
       [\<lparr>step = stepName, entry_status = st, details = dtls,
         timestamp = toLocaleTimeString env (length (auditLog prevState))\<rparr>]\<rparr>"

text \<open>
  \<^verbatim>\<open>details || log.details\<close>: an absent argument and the empty string are both falsy
  and keep the entry's own details.
\<close>

definition or_details :: "string option \<Rightarrow> string \<Rightarrow> string" where
  "or_details dtls old = (case dtls of None \<Rightarrow> old | Some d \<Rightarrow> if d = [] then old else d)"

definition updateAuditLogStatus ::
    "string \<Rightarrow> AuditLogStatus \<Rightarrow> string option \<Rightarrow> AgentState \<Rightarrow> AgentState" where
  "updateAuditLogStatus stepName st dtls prevState =
     prevState\<lparr>auditLog := map (\<lambda>log.
        if step log = stepName
        then log\<lparr>entry_status := st, details := or_details dtls (details log)\<rparr>
        else log) (auditLog prevState)\<rparr>"

definition handlePatientSelect :: "string \<Rightarrow> AgentState \<Rightarrow> AgentState" where
  "handlePatientSelect ident prevState = INITIAL_STATE\<lparr>patientId := Some ident\<rparr>"

definition handleReset :: "AgentState \<Rightarrow> AgentState" where
  "handleReset prevState = INITIAL_STATE"

text \<open>\<^verbatim>\<open>!state.patientId\<close> holds for \<^verbatim>\<open>null\<close> and for the empty string.\<close>

definition falsy_id :: "string option \<Rightarrow> bool" where
  "falsy_id ident = (case ident of None \<Rightarrow> True | Some i \<Rightarrow> i = [])"

definition handleGenerate :: "AgentState \<Rightarrow> AgentState" where
  "handleGenerate state =
     (if falsy_id (patientId state) then state
      else INITIAL_STATE\<lparr>patientId := patientId state, status := running\<rparr>)"

definition handleApprove :: "AgentState \<Rightarrow> AgentState" where
  "handleApprove prevState =
     (updateAuditLogStatus ''Human Review'' completed
        (Some ''Clinician approved the draft summary.'') prevState)\<lparr>status := running\<rparr>"

definition editLogDetails :: "string \<Rightarrow> string" where
  "editLogDetails req = ''Clinician requested edits: '' @ [CHR 0x22] @ req @ [CHR 0x22]"

definition handleRequestEdits :: "string \<Rightarrow> AgentState \<Rightarrow> AgentState" where
  "handleRequestEdits req prevState =
     prevState\<lparr>auditLog := map (\<lambda>log.
        if step log = ''Human Review''
        then log\<lparr>entry_status := completed, details := editLogDetails req\<rparr>
        else log) (auditLog prevState),
       status := editing, editRequest := req\<rparr>"

section \<open>The evaluation pass (runWorkflow)\<close>

text \<open>
  \<^verbatim>\<open>runWorkflow\<close> reads only the snapshot \<^verbatim>\<open>state\<close> its render closed over and writes
  only through \<^verbatim>\<open>setState\<close> updaters. It is modelled as the list of its batches: a
  batch holds, in order, the updaters queued between two suspension points
  (\<^verbatim>\<open>await\<close>), which React applies together before the next render. An empty list
  means that no precondition held.
\<close>

type_synonym updater = "AgentState \<Rightarrow> AgentState"

definition step1_pre :: "AgentState \<Rightarrow> bool" where
  "step1_pre state \<longleftrightarrow>
     status state = running \<and> auditLog state = [] \<and> \<not> falsy_id (patientId state)"

definition step2_pre :: "AgentState \<Rightarrow> bool" where
  "step2_pre state \<longleftrightarrow>
     status state = running \<and> patientData state \<noteq> None \<and> synthesizedNotes state = []"

definition step3_pre :: "AgentState \<Rightarrow> bool" where
  "step3_pre state \<longleftrightarrow>
     (status state = running \<and> synthesizedNotes state \<noteq> [] \<and> draftSummary state = [])
     \<or> status state = editing"

definition step4_pre :: "AgentState \<Rightarrow> bool" where
  "step4_pre state \<longleftrightarrow>
     status state = running \<and> draftSummary state \<noteq> [] \<and> finalSummary state = []"

text \<open>The message \<^verbatim>\<open>errorMsg\<close> of step 1.\<close>

definition errorMsg :: "string \<Rightarrow> string" where
  "errorMsg pid = ''Patient ID '' @ pid @ '' not found.''"

definition step1 :: "collaborators \<Rightarrow> string \<Rightarrow> updater list list" where
  "step1 env pid =
     [[addAuditLog env ''Start Workflow''
         (''Initiating summary generation for patient: '' @ pid) in_progress],
      [addAuditLog env ''Retrieve Patient Data''
         ''Fetching patient record from database.'' in_progress],
      (case getPatientData env pid of
         Some data \<Rightarrow>
           [updateAuditLogStatus ''Start Workflow'' completed None,
            updateAuditLogStatus ''Retrieve Patient Data'' completed
              (Some (''Successfully fetched data for '' @ name (demographics data) @ ''.'')),
            (\<lambda>prevState. prevState\<lparr>patientData := Some data\<rparr>)]
       | None \<Rightarrow>
           [updateAuditLogStatus ''Retrieve Patient Data'' log_error (Some (errorMsg pid)),
            (\<lambda>prevState. prevState\<lparr>status := agent_error, error := Some (errorMsg pid)\<rparr>)])]"

definition step2 :: "collaborators \<Rightarrow> Patient \<Rightarrow> updater list list" where
  "step2 env data =
     [[addAuditLog env ''Synthesize Clinical Notes''
         ''Using Gemini to synthesize patient data.'' in_progress],
      (case synthesizeClinicalData env data of
         Inr notes \<Rightarrow>
           [updateAuditLogStatus ''Synthesize Clinical Notes'' completed
              (Some ''Synthesis complete.''),
            (\<lambda>prevState. prevState\<lparr>synthesizedNotes := notes\<rparr>)]
       | Inl msg \<Rightarrow>
           [updateAuditLogStatus ''Synthesize Clinical Notes'' log_error (Some msg),
            (\<lambda>prevState. prevState\<lparr>status := agent_error, error := Some msg\<rparr>)])]"

definition step3 :: "collaborators \<Rightarrow> AgentState \<Rightarrow> updater list list" where
  "step3 env state =
     (let isEditing = (status state = editing);
          stepName = (if isEditing then ''Regenerate Draft'' else ''Generate Draft Summary'')
      in
      [(if isEditing
        then [addAuditLog env stepName
                ''Applying requested edits and regenerating summary.'' in_progress,
              (\<lambda>prevState. prevState\<lparr>status := running\<rparr>)]
        else [addAuditLog env stepName ''Using Gemini to create draft summary.'' in_progress]),
       (case generateDraftSummary env (synthesizedNotes state) (patientData state)
               (editRequest state) of
          Inr draft \<Rightarrow>
            [updateAuditLogStatus stepName completed
               (Some ''Draft generated. Awaiting human review.''),
             addAuditLog env ''Human Review'' ''Waiting for clinician approval.'' human_input,
             (\<lambda>prevState. prevState\<lparr>draftSummary := draft, status := awaiting_approval,
                editRequest := []\<rparr>)]
        | Inl msg \<Rightarrow>
            [updateAuditLogStatus stepName log_error (Some msg),
             (\<lambda>prevState. prevState\<lparr>status := agent_error, error := Some msg\<rparr>)])])"

definition step4 :: "collaborators \<Rightarrow> updater list list" where
  "step4 env =
     [[addAuditLog env ''Finalize Summary'' ''Finalizing the document.'' in_progress],
      [updateAuditLogStatus ''Finalize Summary'' completed
         (Some ''Discharge summary is complete.''),
       addAuditLog env ''Workflow Complete'' ''Process finished successfully.'' completed,
       (\<lambda>prevState. prevState\<lparr>finalSummary := draftSummary prevState, status := finished\<rparr>)]]"

text \<open>
  The four \<^verbatim>\<open>if\<close> blocks in their order; each of the first three ends in
  \<^verbatim>\<open>return\<close>. Where a precondition holds the tested field is present, so the
  \<open>None\<close> branches below are never taken.
\<close>

definition runWorkflow :: "collaborators \<Rightarrow> AgentState \<Rightarrow> updater list list" where
  "runWorkflow env state =
     (if step1_pre state then
        (case patientId state of Some pid \<Rightarrow> step1 env pid | None \<Rightarrow> [])
      else if step2_pre state then
        (case patientData state of Some data \<Rightarrow> step2 env data | None \<Rightarrow> [])
      else if step3_pre state then step3 env state
      else if step4_pre state then step4 env
      else [])"

text \<open>A batch applies its updaters in the order they were queued.\<close>

definition apply_batch :: "updater list \<Rightarrow> AgentState \<Rightarrow> AgentState" where
  "apply_batch b s = fold (\<lambda>u prevState. u prevState) b s"

text \<open>One pass run to its end with nothing else in between, from the snapshot it read.\<close>

definition pass :: "collaborators \<Rightarrow> AgentState \<Rightarrow> AgentState" where
  "pass env s = fold apply_batch (runWorkflow env s) s"

section \<open>The effect and its dependency list\<close>

text \<open>
  \<^verbatim>\<open>useEffect\<close> calls \<^verbatim>\<open>runWorkflow\<close> after the first render and after every render in
  which one of \<^verbatim>\<open>[status, patientId, patientData, synthesizedNotes, draftSummary]\<close>
  differs from the render before (the first render shows \<^verbatim>\<open>INITIAL_STATE\<close>, where no
  precondition holds). The call runs up to its first \<^verbatim>\<open>await\<close> at once, which applies
  its first batch and renders again; the remaining batches wait as a pending task, one
  batch per suspension point. Nothing in \<^verbatim>\<open>App.tsx\<close> cancels a pending task or keeps a
  second call from starting while one is pending.

  A configuration is the rendered state and the pending tasks, oldest first. Two
  assumptions about React and the collaborators are built in: the updaters queued
  between two suspension points are applied together, and a suspended call continues
  only after the state it left has been rendered (timers and network calls settle in a
  later task). The dependencies are compared as values; \<^verbatim>\<open>patientData\<close> only ever changes
  between \<^verbatim>\<open>null\<close> and a record, where this agrees with React's comparison by identity.
\<close>

record config =
  current :: AgentState
  tasks :: "updater list list list"

definition deps ::
    "AgentState \<Rightarrow> AgentStatus \<times> string option \<times> Patient option \<times> string \<times> string" where
  "deps s = (status s, patientId s, patientData s, synthesizedNotes s, draftSummary s)"

definition enqueue :: "updater list list \<Rightarrow> updater list list list \<Rightarrow> updater list list list" where
  "enqueue bs ts = (if bs = [] then ts else ts @ [bs])"

lemma first_batch_deps:
  assumes "runWorkflow env s = b # bs" and "status s \<noteq> editing"
  shows "deps (apply_batch b s) = deps s"
  using assms
  by (auto simp: runWorkflow_def step1_def step2_def step3_def step4_def step3_pre_def
      apply_batch_def deps_def addAuditLog_def Let_def split: if_splits option.splits)

lemma first_batch_editing:
  assumes "runWorkflow env s = b # bs" and "status s = editing"
  shows "status (apply_batch b s) = running"
  using assms
  by (auto simp: runWorkflow_def step1_pre_def step2_pre_def step3_pre_def step4_pre_def
      step3_def apply_batch_def addAuditLog_def Let_def split: if_splits option.splits)

function effect :: "collaborators \<Rightarrow> AgentState \<Rightarrow> config \<Rightarrow> config" where
  "effect env rendered c =
     (if deps (current c) = deps rendered then c
      else (case runWorkflow env (current c) of
              [] \<Rightarrow> c
            | b # bs \<Rightarrow>
                effect env (current c)
                  \<lparr>current = apply_batch b (current c), tasks = enqueue bs (tasks c)\<rparr>))"
  by pat_completeness auto
termination
proof (relation "measure (\<lambda>(env, rendered, c).
          if deps (current c) = deps rendered then 0
          else if status (current c) = editing then 2 else (1::nat))")
  show "wf (measure (\<lambda>(env, rendered, c).
          if deps (current c) = deps rendered then 0
          else if status (current c) = editing then 2 else (1::nat)))"
    by simp
next
  fix env :: collaborators and rendered :: AgentState and c :: config and b bs
  assume changed: "deps (current c) \<noteq> deps rendered"
    and run: "runWorkflow env (current c) = b # bs"
  show "((env, current c, \<lparr>current = apply_batch b (current c), tasks = enqueue bs (tasks c)\<rparr>),
         (env, rendered, c))
        \<in> measure (\<lambda>(env, rendered, c).
          if deps (current c) = deps rendered then 0
          else if status (current c) = editing then 2 else (1::nat))"
  proof (cases "status (current c) = editing")
    case True
    with run have "status (apply_batch b (current c)) = running"
      by (rule first_batch_editing)
    with True changed show ?thesis by simp
  next
    case False
    with run have "deps (apply_batch b (current c)) = deps (current c)"
      by (rule first_batch_deps)
    with False changed show ?thesis by simp
  qed
qed

declare effect.simps [simp del]

section \<open>Events\<close>

text \<open>
  The five entry points of the user interface, and the resumption of a pending task
  (a timer or a collaborator's promise settles): the task's next batch is applied and
  the state is rendered. \<open>Resume i\<close> names the \<open>i\<close>-th pending task, oldest first, and
  does nothing when there is none. A run is a sequence of events; which pending task
  resumes next is the schedule's choice.
\<close>

datatype event =
    PatientSelect string
  | Reset
  | Generate
  | Approve
  | RequestEdits string
  | Resume nat

definition commit :: "collaborators \<Rightarrow> config \<Rightarrow> AgentState \<Rightarrow> config" where
  "commit env c s = effect env (current c) (c\<lparr>current := s\<rparr>)"

fun dispatch :: "collaborators \<Rightarrow> config \<Rightarrow> event \<Rightarrow> config" where
  "dispatch env c (PatientSelect ident) = commit env c (handlePatientSelect ident (current c))"
| "dispatch env c Reset = commit env c (handleReset (current c))"
| "dispatch env c Generate = commit env c (handleGenerate (current c))"
| "dispatch env c Approve = commit env c (handleApprove (current c))"
| "dispatch env c (RequestEdits req) = commit env c (handleRequestEdits req (current c))"
| "dispatch env c (Resume i) =
     (if i < length (tasks c) then
        (case tasks c ! i of
           [] \<Rightarrow> c
         | b # bs \<Rightarrow>
             effect env (current c)
               \<lparr>current = apply_batch b (current c),
                tasks = take i (tasks c) @ (if bs = [] then [] else [bs]) @ drop (Suc i) (tasks c)\<rparr>)
      else c)"

definition run :: "collaborators \<Rightarrow> config \<Rightarrow> event list \<Rightarrow> config" where
  "run env c evs = foldl (dispatch env) c evs"

text \<open>The application after its first render.\<close>

definition mounted :: config where
  "mounted = \<lparr>current = INITIAL_STATE, tasks = []\<rparr>"

text \<open>
  The events of an undisturbed run: select, generate, the two resumptions of step 1, the
  resumption of step 2 and of step 3, the approval, the resumption of step 4. At each
  point at most one task is pending, so these events admit no other schedule.
\<close>

definition happy_path :: "string \<Rightarrow> event list" where
  "happy_path pid =
     [PatientSelect pid, Generate, Resume 0, Resume 0, Resume 0, Resume 0, Approve, Resume 0]"

text \<open>
  An edit cycle: the request; then the other pending tasks (positions 1 and up) resume in
  any order and any number of times; then the draft collaborator's promise settles, which
  resumes the regeneration (position 0, the oldest pending task).
\<close>

definition edit_cycle :: "string \<Rightarrow> nat list \<Rightarrow> event list" where
  "edit_cycle req js = RequestEdits req # map Resume js @ [Resume 0]"

section \<open>Notions used in the statements\<close>

text \<open>
  The state right after \<^verbatim>\<open>selectPatient(pid)\<close> and \<^verbatim>\<open>generate()\<close> on the initial state.
\<close>

definition started :: "string \<Rightarrow> AgentState" where
  "started pid = handleGenerate (handlePatientSelect pid INITIAL_STATE)"

text \<open>The number of audit entries whose status is \<open>in_progress\<close>.\<close>

definition in_progress_count :: "AgentState \<Rightarrow> nat" where
  "in_progress_count s = length (filter (\<lambda>log. entry_status log = in_progress) (auditLog s))"

text \<open>
  A later log revises an earlier one: it is at least as long, and position by position
  the earlier entries keep their step name and their timestamp (an entry has no other
  fields than these two, its status and its details).
\<close>

definition revises :: "AuditLogEntry list \<Rightarrow> AuditLogEntry list \<Rightarrow> bool" where
  "revises old new \<longleftrightarrow>
     length old \<le> length new
     \<and> map step (take (length old) new) = map step old
     \<and> map timestamp (take (length old) new) = map timestamp old"

text \<open>The events inside a run: everything but selecting, resetting and generating.\<close>

fun within_run :: "event \<Rightarrow> bool" where
  "within_run Approve = True"
| "within_run (RequestEdits req) = True"
| "within_run (Resume i) = True"
| "within_run (PatientSelect ident) = False"
| "within_run Reset = False"
| "within_run Generate = False"

text \<open>
  An attended run: the user acts only while no task is pending, and decides (approve,
  request edits) only while the status is \<open>awaiting_approval\<close>; pending tasks resume at
  any time and in any order.
\<close>

fun admissible :: "config \<Rightarrow> event \<Rightarrow> bool" where
  "admissible c (Resume i) = True"
| "admissible c Approve = (tasks c = [] \<and> status (current c) = awaiting_approval)"
| "admissible c (RequestEdits req) = (tasks c = [] \<and> status (current c) = awaiting_approval)"
| "admissible c (PatientSelect ident) = (tasks c = [])"
| "admissible c Reset = (tasks c = [])"
| "admissible c Generate = (tasks c = [])"

fun attended :: "collaborators \<Rightarrow> config \<Rightarrow> event list \<Rightarrow> bool" where
  "attended env c [] = True"
| "attended env c (ev # evs) = (admissible c ev \<and> attended env (dispatch env c ev) evs)"

section \<open>Notions used in the proofs\<close>

text \<open>The step names of the entries in progress, in log order.\<close>

definition open_steps :: "AgentState \<Rightarrow> string list" where
  "open_steps s = map step (filter (\<lambda>log. entry_status log = in_progress) (auditLog s))"

text \<open>Batches queued by some call of \<^verbatim>\<open>runWorkflow\<close>; tasks made of such batches.\<close>

definition workflow_batch :: "collaborators \<Rightarrow> updater list \<Rightarrow> bool" where
  "workflow_batch env b \<longleftrightarrow> (\<exists>snap. b \<in> set (runWorkflow env snap))"

definition workflow_tasks :: "collaborators \<Rightarrow> updater list list list \<Rightarrow> bool" where
  "workflow_tasks env ts \<longleftrightarrow> (\<forall>t \<in> set ts. \<forall>b \<in> set t. workflow_batch env b)"

text \<open>
  A later log preserves the reviews of an earlier one: it is at least as long, the
  earlier entries keep their step names, and those named \<open>Human Review\<close> are unchanged.
\<close>

definition preserves_reviews :: "AuditLogEntry list \<Rightarrow> AuditLogEntry list \<Rightarrow> bool" where
  "preserves_reviews old new \<longleftrightarrow>
     length old \<le> length new
     \<and> (\<forall>i < length old. step (new ! i) = step (old ! i)
           \<and> (step (old ! i) = ''Human Review'' \<longrightarrow> new ! i = old ! i))"

text \<open>
  The two batches of step 3 on its editing branch, when the collaborator returns
  \<open>draft\<close>: the state after the first batch, and the second batch.
\<close>

definition regenerating :: "collaborators \<Rightarrow> AgentState \<Rightarrow> AgentState" where
  "regenerating env s =
     (addAuditLog env ''Regenerate Draft''
        ''Applying requested edits and regenerating summary.'' in_progress s)
     \<lparr>status := running\<rparr>"

definition regenerated :: "collaborators \<Rightarrow> string \<Rightarrow> updater list" where
  "regenerated env draft =
     [updateAuditLogStatus ''Regenerate Draft'' completed
        (Some ''Draft generated. Awaiting human review.''),
      addAuditLog env ''Human Review'' ''Waiting for clinician approval.'' human_input,
      (\<lambda>prevState. prevState\<lparr>draftSummary := draft, status := awaiting_approval,
         editRequest := []\<rparr>)]"

text \<open>
  After the request and until the draft arrives: the regeneration's second batch is the
  first pending task, the other pending tasks come from \<^verbatim>\<open>runWorkflow\<close>, and the log
  preserves the reviews of the log \<open>r\<close> had when the regeneration began.
\<close>

definition awaiting_draft ::
    "collaborators \<Rightarrow> string \<Rightarrow> AgentState \<Rightarrow> config \<Rightarrow> bool" where
  "awaiting_draft env draft r c \<longleftrightarrow>
     (\<exists>ts. tasks c = [regenerated env draft] # ts \<and> workflow_tasks env ts)
     \<and> preserves_reviews (auditLog r) (auditLog (current c))"

text \<open>
  A batch closes a step name when it takes the entries of that name out of progress and
  puts nothing in progress; it halts when it leaves a status in which no step runs.
\<close>

definition closes :: "string \<Rightarrow> updater list \<Rightarrow> bool" where
  "closes nm B \<longleftrightarrow>
     (\<forall>t. open_steps (apply_batch B t) = filter (\<lambda>x. x \<noteq> nm) (open_steps t)
          \<and> (status t \<noteq> editing \<longrightarrow> status (apply_batch B t) \<noteq> editing))"

definition halts :: "updater list \<Rightarrow> bool" where
  "halts B \<longleftrightarrow> (\<forall>t. status (apply_batch B t) \<noteq> running \<and> status (apply_batch B t) \<noteq> editing)"

text \<open>
  The configurations of an attended run: nothing pending; step 1 after its first or its
  second batch; one other step pending; a regeneration pending with one other step.
\<close>

inductive orderly :: "collaborators \<Rightarrow> config \<Rightarrow> bool" for env :: collaborators where
  resting:
    "tasks c = [] \<Longrightarrow> status (current c) \<noteq> editing \<Longrightarrow>
     open_steps (current c) = []
       \<or> (open_steps (current c) = [''Start Workflow''] \<and> status (current c) = agent_error) \<Longrightarrow>
     orderly env c"
| starting:
    "tasks c = [tl (step1 env x)] \<Longrightarrow> status (current c) \<noteq> editing \<Longrightarrow>
     open_steps (current c) = [''Start Workflow''] \<Longrightarrow> orderly env c"
| retrieving:
    "tasks c = [drop 2 (step1 env x)] \<Longrightarrow> status (current c) \<noteq> editing \<Longrightarrow>
     open_steps (current c) = [''Start Workflow'', ''Retrieve Patient Data''] \<Longrightarrow>
     orderly env c"
| stepping:
    "tasks c = [[B]] \<Longrightarrow> closes nm B \<Longrightarrow> status (current c) \<noteq> editing \<Longrightarrow>
     open_steps (current c) = [nm] \<Longrightarrow> orderly env c"
| redrafting:
    "tasks c = [[B], [B']] \<Longrightarrow> closes ''Regenerate Draft'' B \<Longrightarrow> halts B \<Longrightarrow>
     closes nm B' \<Longrightarrow> nm \<noteq> ''Regenerate Draft'' \<Longrightarrow> status (current c) \<noteq> editing \<Longrightarrow>
     open_steps (current c) = [''Regenerate Draft'', nm] \<Longrightarrow> orderly env c"

section \<open>Examples used by the closed theorems\<close>

definition example_patient :: Patient where
  "example_patient =
     \<lparr>patient_id = ''P1'',
      demographics = \<lparr>name = ''Ann Lee'', dob = ''1980-01-01'', nhs_number = ''000''\<rparr>,
      admission_reason = ''chest pain'', clinical_notes = ''stable'',
      lab_results = [], medication_changes = []\<rparr>"

text \<open>
  A gateway that knows only \<open>P1\<close>, a synthesis that returns \<open>N1\<close>, a draft collaborator
  that returns \<open>D1\<close> for the first draft and \<open>D2\<close> for a regeneration.
\<close>

definition example_env :: collaborators where
  "example_env =
     \<lparr>getPatientData = (\<lambda>ident. if ident = ''P1'' then Some example_patient else None),
      synthesizeClinicalData = (\<lambda>p. Inr ''N1''),
      generateDraftSummary = (\<lambda>notes p req. if req = [] then Inr ''D1'' else Inr ''D2''),
      toLocaleTimeString = (\<lambda>n. ''10:00:00'')\<rparr>"

text \<open>The same collaborators, but a synthesis that returns the empty text.\<close>

definition silent_env :: collaborators where
  "silent_env = example_env\<lparr>synthesizeClinicalData := (\<lambda>p. Inr [])\<rparr>"

definition review_entry :: "AuditLogStatus \<Rightarrow> string \<Rightarrow> AuditLogEntry" where
  "review_entry st dtls =
     \<lparr>step = ''Human Review'', entry_status = st, details = dtls, timestamp = ''10:00:00''\<rparr>"


text \<open>A state that waits for the clinician: first draft \<open>D1\<close>, one open review.\<close>

definition reviewing :: AgentState where
  "reviewing =
     INITIAL_STATE\<lparr>patientId := Some ''P1'', patientData := Some example_patient,
       synthesizedNotes := ''N1'', draftSummary := ''D1'', status := awaiting_approval,
       auditLog := [review_entry human_input ''Waiting for clinician approval.'']\<rparr>"

text \<open>
  The run up to the first review: select \<open>P1\<close>, generate, the two resumptions of step 1,
  the resumption of step 2 and of step 3.
\<close>

definition first_review :: "event list" where
  "first_review = [PatientSelect ''P1'', Generate, Resume 0, Resume 0, Resume 0, Resume 0]"


section \<open>Basic facts about the updaters and the effect\<close>

lemma effect_unchanged:
  "deps (current c) = deps rendered \<Longrightarrow> effect env rendered c = c"
  by (subst effect.simps) simp

lemma effect_no_step:
  "runWorkflow env (current c) = [] \<Longrightarrow> effect env rendered c = c"
  by (subst effect.simps) simp

lemma effect_spawn:
  assumes "deps (current c) \<noteq> deps rendered" and "runWorkflow env (current c) = b # bs"
  shows "effect env rendered c =
           effect env (current c)
             \<lparr>current = apply_batch b (current c), tasks = enqueue bs (tasks c)\<rparr>"
  using assms by (subst effect.simps) simp

lemma runWorkflow_waiting:
  "status s \<noteq> running \<Longrightarrow> status s \<noteq> editing \<Longrightarrow> runWorkflow env s = []"
  by (simp add: runWorkflow_def step1_pre_def step2_pre_def step3_pre_def step4_pre_def)

lemma apply_batch_simps [simp]:
  "apply_batch [] s = s"
  "apply_batch (u # us) s = apply_batch us (u s)"
  by (simp_all add: apply_batch_def)

lemma addAuditLog_fields [simp]:
  "patientId (addAuditLog env n d st s) = patientId s"
  "patientData (addAuditLog env n d st s) = patientData s"
  "synthesizedNotes (addAuditLog env n d st s) = synthesizedNotes s"
  "draftSummary (addAuditLog env n d st s) = draftSummary s"
  "finalSummary (addAuditLog env n d st s) = finalSummary s"
  "status (addAuditLog env n d st s) = status s"
  "error (addAuditLog env n d st s) = error s"
  "editRequest (addAuditLog env n d st s) = editRequest s"
  "auditLog (addAuditLog env n d st s) = auditLog s @
     [\<lparr>step = n, entry_status = st, details = d,
       timestamp = toLocaleTimeString env (length (auditLog s))\<rparr>]"
  by (simp_all add: addAuditLog_def)

lemma updateAuditLogStatus_fields [simp]:
  "patientId (updateAuditLogStatus n st d s) = patientId s"
  "patientData (updateAuditLogStatus n st d s) = patientData s"
  "synthesizedNotes (updateAuditLogStatus n st d s) = synthesizedNotes s"
  "draftSummary (updateAuditLogStatus n st d s) = draftSummary s"
  "finalSummary (updateAuditLogStatus n st d s) = finalSummary s"
  "status (updateAuditLogStatus n st d s) = status s"
  "error (updateAuditLogStatus n st d s) = error s"
  "editRequest (updateAuditLogStatus n st d s) = editRequest s"
  by (simp_all add: updateAuditLogStatus_def)

lemma deps_log_updaters [simp]:
  "deps (addAuditLog env n d st s) = deps s"
  "deps (updateAuditLogStatus n st dd s) = deps s"
  by (simp_all add: deps_def)

lemma effect_cong_deps:
  "deps r = deps r' \<Longrightarrow> effect env r c = effect env r' c"
  by (subst effect.simps, subst (2) effect.simps) simp

lemma effect_waiting:
  "status (current c) \<noteq> running \<Longrightarrow> status (current c) \<noteq> editing \<Longrightarrow> effect env r c = c"
  by (simp add: effect_no_step runWorkflow_waiting)

lemma effect_once:
  assumes "deps (current c) \<noteq> deps r" and "status (current c) \<noteq> editing"
    and "runWorkflow env (current c) = b # bs"
  shows "effect env r c = \<lparr>current = apply_batch b (current c), tasks = enqueue bs (tasks c)\<rparr>"
proof -
  have "deps (apply_batch b (current c)) = deps (current c)"
    using assms(3,2) by (rule first_batch_deps)
  then show ?thesis
    using assms by (simp add: effect_spawn effect_unchanged)
qed

text \<open>Which block of runWorkflow runs, and the shape of its batches.\<close>

lemma runWorkflow_cases:
  obtains (none) "runWorkflow env s = []"
  | (retrieve) x where "step1_pre s" and "patientId s = Some x"
      and "runWorkflow env s = step1 env x"
  | (synthesize) p where "\<not> step1_pre s" and "step2_pre s" and "patientData s = Some p"
      and "runWorkflow env s = step2 env p"
  | (draft) "\<not> step1_pre s" and "\<not> step2_pre s" and "step3_pre s"
      and "runWorkflow env s = step3 env s"
  | (finalize) "\<not> step1_pre s" and "\<not> step2_pre s" and "\<not> step3_pre s" and "step4_pre s"
      and "runWorkflow env s = step4 env"
proof (cases "step1_pre s")
  case True
  then obtain x where "patientId s = Some x"
    by (auto simp: step1_pre_def falsy_id_def split: option.splits)
  with True show thesis
    by (intro retrieve [of x]) (simp_all add: runWorkflow_def)
next
  case no1: False
  show thesis
  proof (cases "step2_pre s")
    case True
    then obtain p where "patientData s = Some p"
      by (auto simp: step2_pre_def)
    with True no1 show thesis
      by (intro synthesize [of p]) (simp_all add: runWorkflow_def)
  next
    case no2: False
    show thesis
    proof (cases "step3_pre s")
      case True
      with no1 no2 show thesis
        by (intro draft) (simp_all add: runWorkflow_def)
    next
      case no3: False
      show thesis
      proof (cases "step4_pre s")
        case True
        with no1 no2 no3 show thesis
          by (intro finalize) (simp_all add: runWorkflow_def)
      next
        case False
        with no1 no2 no3 show thesis
          by (intro none) (simp add: runWorkflow_def)
      qed
    qed
  qed
qed

lemma step1_shape:
  obtains b1 b2 b3 where "step1 env x = [b1, b2, b3]"
    and "\<And>t. deps (apply_batch b1 t) = deps t" and "\<And>t. deps (apply_batch b2 t) = deps t"
  by (simp add: step1_def)

lemma step2_shape:
  obtains b1 b2 where "step2 env p = [b1, b2]" and "\<And>t. deps (apply_batch b1 t) = deps t"
  by (simp add: step2_def)

lemma step3_shape_draft:
  assumes "status s \<noteq> editing"
  obtains b1 b2 where "step3 env s = [b1, b2]" and "\<And>t. deps (apply_batch b1 t) = deps t"
  using assms by (simp add: step3_def Let_def)

lemma step4_shape:
  obtains b1 b2 where "step4 env = [b1, b2]" and "\<And>t. deps (apply_batch b1 t) = deps t"
  by (simp add: step4_def)

lemma solo_two:
  assumes run: "runWorkflow env s = [b1, b2]" and quiet: "\<And>t. deps (apply_batch b1 t) = deps t"
    and changed: "deps s \<noteq> deps r" and st: "status s \<noteq> editing"
  shows "run env (effect env r \<lparr>current = s, tasks = []\<rparr>) [Resume 0]
         = effect env s \<lparr>current = pass env s, tasks = []\<rparr>"
proof -
  have "effect env r \<lparr>current = s, tasks = []\<rparr> = \<lparr>current = apply_batch b1 s, tasks = [[b2]]\<rparr>"
    using changed st run by (simp add: effect_once enqueue_def)
  moreover have "effect env (apply_batch b1 s) \<lparr>current = pass env s, tasks = []\<rparr>
      = effect env s \<lparr>current = pass env s, tasks = []\<rparr>"
    by (rule effect_cong_deps) (rule quiet)
  ultimately show ?thesis
    by (simp add: run_def pass_def run)
qed

lemma solo_three:
  assumes run: "runWorkflow env s = [b1, b2, b3]"
    and quiet: "\<And>t. deps (apply_batch b1 t) = deps t" "\<And>t. deps (apply_batch b2 t) = deps t"
    and changed: "deps s \<noteq> deps r" and st: "status s \<noteq> editing"
  shows "run env (effect env r \<lparr>current = s, tasks = []\<rparr>) [Resume 0, Resume 0]
         = effect env s \<lparr>current = pass env s, tasks = []\<rparr>"
proof -
  have "effect env r \<lparr>current = s, tasks = []\<rparr>
      = \<lparr>current = apply_batch b1 s, tasks = [[b2, b3]]\<rparr>"
    using changed st run by (simp add: effect_once enqueue_def)
  moreover have "effect env (apply_batch b1 s)
        \<lparr>current = apply_batch b2 (apply_batch b1 s), tasks = [[b3]]\<rparr>
      = \<lparr>current = apply_batch b2 (apply_batch b1 s), tasks = [[b3]]\<rparr>"
    by (rule effect_unchanged) (simp add: quiet)
  moreover have "effect env (apply_batch b2 (apply_batch b1 s)) \<lparr>current = pass env s, tasks = []\<rparr>
      = effect env s \<lparr>current = pass env s, tasks = []\<rparr>"
    by (rule effect_cong_deps) (simp add: quiet)
  ultimately show ?thesis
    by (simp add: run_def pass_def run)
qed

text \<open>While one task is pending and none is added, the run is the pass.\<close>

lemma solo_pass:
  assumes changed: "deps s \<noteq> deps r" and st: "status s \<noteq> editing"
    and some: "runWorkflow env s \<noteq> []"
  shows "run env (effect env r \<lparr>current = s, tasks = []\<rparr>)
           (replicate (length (runWorkflow env s) - 1) (Resume 0))
         = effect env s \<lparr>current = pass env s, tasks = []\<rparr>"
proof (cases rule: runWorkflow_cases [of env s])
  case none
  with some show ?thesis by simp
next
  case (retrieve x)
  obtain b1 b2 b3 where "step1 env x = [b1, b2, b3]"
    and "\<And>t. deps (apply_batch b1 t) = deps t" and "\<And>t. deps (apply_batch b2 t) = deps t"
    using step1_shape [of env x] by blast
  with retrieve(3) changed st show ?thesis
    using solo_three [of env s b1 b2 b3 r] by (simp add: numeral_3_eq_3)
next
  case (synthesize p)
  obtain b1 b2 where "step2 env p = [b1, b2]" and "\<And>t. deps (apply_batch b1 t) = deps t"
    using step2_shape [of env p] by blast
  with synthesize(4) changed st show ?thesis
    using solo_two [of env s b1 b2 r] by simp
next
  case draft
  obtain b1 b2 where "step3 env s = [b1, b2]" and "\<And>t. deps (apply_batch b1 t) = deps t"
    using step3_shape_draft [OF st, of env] by blast
  with draft(4) changed st show ?thesis
    using solo_two [of env s b1 b2 r] by simp
next
  case finalize
  obtain b1 b2 where "step4 env = [b1, b2]" and "\<And>t. deps (apply_batch b1 t) = deps t"
    using step4_shape [of env] by blast
  with finalize(5) changed st show ?thesis
    using solo_two [of env s b1 b2 r] by simp
qed

text \<open>
  The two updates by step name, entry by entry: both go through the whole log with
  \<^verbatim>\<open>map\<close>, so every entry of the given name is rewritten and every other entry is kept.
\<close>

lemma update_by_name_nth:
  "length (auditLog (updateAuditLogStatus stepName st dtls s)) = length (auditLog s)
   \<and> length (auditLog (handleRequestEdits req s)) = length (auditLog s)
   \<and> (\<forall>i < length (auditLog s).
        (step (auditLog s ! i) = stepName \<longrightarrow>
           auditLog (updateAuditLogStatus stepName st dtls s) ! i =
             (auditLog s ! i)\<lparr>entry_status := st,
                details := or_details dtls (details (auditLog s ! i))\<rparr>)
      \<and> (step (auditLog s ! i) \<noteq> stepName \<longrightarrow>
           auditLog (updateAuditLogStatus stepName st dtls s) ! i = auditLog s ! i)
      \<and> (step (auditLog s ! i) = ''Human Review'' \<longrightarrow>
           auditLog (handleRequestEdits req s) ! i =
             (auditLog s ! i)\<lparr>entry_status := completed, details := editLogDetails req\<rparr>)
      \<and> (step (auditLog s ! i) \<noteq> ''Human Review'' \<longrightarrow>
           auditLog (handleRequestEdits req s) ! i = auditLog s ! i))"
  by (simp add: updateAuditLogStatus_def handleRequestEdits_def)

section \<open>What one pass does\<close>

lemma run_append: "run env c (xs @ ys) = run env (run env c xs) ys"
  by (simp add: run_def)

lemma run_Cons: "run env c (ev # evs) = run env (dispatch env c ev) evs"
  by (simp add: run_def)

lemma run_Nil: "run env c [] = c"
  by (simp add: run_def)

lemma steps_updateAuditLogStatus [simp]:
  "map step (auditLog (updateAuditLogStatus n st d s)) = map step (auditLog s)"
  "length (auditLog (updateAuditLogStatus n st d s)) = length (auditLog s)"
  by (simp_all add: updateAuditLogStatus_def)

lemma auditLog_updateAuditLogStatus_Nil [simp]:
  "auditLog (updateAuditLogStatus n st d s) = [] \<longleftrightarrow> auditLog s = []"
  by (simp add: updateAuditLogStatus_def)

lemma pass_retrieve_missing:
  assumes "step1_pre s" and "patientId s = Some x" and "getPatientData env x = None"
  shows "pass env s = s\<lparr>auditLog :=
      [\<lparr>step = ''Start Workflow'', entry_status = in_progress,
         details = ''Initiating summary generation for patient: '' @ x,
         timestamp = toLocaleTimeString env 0\<rparr>,
       \<lparr>step = ''Retrieve Patient Data'', entry_status = log_error,
         details = errorMsg x, timestamp = toLocaleTimeString env 1\<rparr>],
      status := agent_error, error := Some (errorMsg x)\<rparr>"
proof -
  have "runWorkflow env s = step1 env x" and "auditLog s = []"
    using assms by (simp_all add: runWorkflow_def step1_pre_def)
  then show ?thesis
    using assms(3)
    by (simp add: pass_def step1_def addAuditLog_def updateAuditLogStatus_def or_details_def
        errorMsg_def)
qed

lemma pass_retrieve_found:
  assumes "step1_pre s" and "patientId s = Some x" and "getPatientData env x = Some p"
  shows "pass env s = s\<lparr>auditLog :=
      [\<lparr>step = ''Start Workflow'', entry_status = completed,
         details = ''Initiating summary generation for patient: '' @ x,
         timestamp = toLocaleTimeString env 0\<rparr>,
       \<lparr>step = ''Retrieve Patient Data'', entry_status = completed,
         details = ''Successfully fetched data for '' @ name (demographics p) @ ''.'',
         timestamp = toLocaleTimeString env 1\<rparr>],
      patientData := Some p\<rparr>"
proof -
  have "runWorkflow env s = step1 env x" and "auditLog s = []"
    using assms by (simp_all add: runWorkflow_def step1_pre_def)
  then show ?thesis
    using assms(3)
    by (simp add: pass_def step1_def addAuditLog_def updateAuditLogStatus_def or_details_def)
qed

lemma pass_synthesize_ok:
  assumes "\<not> step1_pre s" and "step2_pre s" and "patientData s = Some p"
    and "synthesizeClinicalData env p = Inr notes"
  shows "pass env s =
     (updateAuditLogStatus ''Synthesize Clinical Notes'' completed (Some ''Synthesis complete.'')
        (addAuditLog env ''Synthesize Clinical Notes''
           ''Using Gemini to synthesize patient data.'' in_progress s))
     \<lparr>synthesizedNotes := notes\<rparr>"
  using assms by (simp add: pass_def runWorkflow_def step2_def)

lemma pass_draft_ok:
  assumes "\<not> step1_pre s" and "\<not> step2_pre s" and "step3_pre s" and "status s \<noteq> editing"
    and "generateDraftSummary env (synthesizedNotes s) (patientData s) (editRequest s) = Inr draft"
  shows "pass env s =
     (addAuditLog env ''Human Review'' ''Waiting for clinician approval.'' human_input
        (updateAuditLogStatus ''Generate Draft Summary'' completed
           (Some ''Draft generated. Awaiting human review.'')
           (addAuditLog env ''Generate Draft Summary''
              ''Using Gemini to create draft summary.'' in_progress s)))
     \<lparr>draftSummary := draft, status := awaiting_approval, editRequest := []\<rparr>"
  using assms by (simp add: pass_def runWorkflow_def step3_def Let_def)

lemma pass_finalize:
  assumes "\<not> step1_pre s" and "\<not> step2_pre s" and "\<not> step3_pre s" and "step4_pre s"
  shows "pass env s =
     (addAuditLog env ''Workflow Complete'' ''Process finished successfully.'' completed
        (updateAuditLogStatus ''Finalize Summary'' completed
           (Some ''Discharge summary is complete.'')
           (addAuditLog env ''Finalize Summary'' ''Finalizing the document.'' in_progress s)))
     \<lparr>finalSummary := draftSummary s, status := finished\<rparr>"
  using assms by (simp add: pass_def runWorkflow_def step4_def)

lemma start_run:
  assumes "x \<noteq> []" and "tasks c = []"
  shows "run env c [PatientSelect x, Generate] =
     effect env (INITIAL_STATE\<lparr>patientId := Some x\<rparr>)
       \<lparr>current = INITIAL_STATE\<lparr>patientId := Some x, status := running\<rparr>, tasks = []\<rparr>"
proof -
  have "runWorkflow env (INITIAL_STATE\<lparr>patientId := Some x\<rparr>) = []"
    by (rule runWorkflow_waiting) (simp_all add: INITIAL_STATE_def)
  then have "dispatch env c (PatientSelect x) =
      \<lparr>current = INITIAL_STATE\<lparr>patientId := Some x\<rparr>, tasks = []\<rparr>"
    using assms(2) by (simp add: commit_def handlePatientSelect_def effect_no_step)
  then show ?thesis
    using assms(1)
    by (simp add: run_def commit_def handleGenerate_def falsy_id_def INITIAL_STATE_def)
qed

lemma effect_solo_step:
  assumes "deps s \<noteq> deps r" and "status s = running" and "runWorkflow env s \<noteq> []"
    and "length (runWorkflow env s) = Suc (length evs)" and "set evs \<subseteq> {Resume 0}"
  shows "run env (effect env r \<lparr>current = s, tasks = []\<rparr>) evs
         = effect env s \<lparr>current = pass env s, tasks = []\<rparr>"
proof -
  have "evs = replicate (length (runWorkflow env s) - 1) (Resume 0)"
    using assms(4,5) by (simp add: replicate_length_same subset_iff)
  moreover have "status s \<noteq> editing"
    using assms(2) by simp
  ultimately show ?thesis
    using solo_pass [OF assms(1) _ assms(3)] by simp
qed

lemma started_eq:
  "pid \<noteq> [] \<Longrightarrow> started pid = INITIAL_STATE\<lparr>patientId := Some pid, status := running\<rparr>"
  by (simp add: started_def handleGenerate_def handlePatientSelect_def falsy_id_def
      INITIAL_STATE_def)

lemma step1_pre_started: "pid \<noteq> [] \<Longrightarrow> step1_pre (started pid)"
  by (simp add: started_eq step1_pre_def falsy_id_def INITIAL_STATE_def)

lemma pass_idle: "runWorkflow env s = [] \<Longrightarrow> pass env s = s"
  by (simp add: pass_def)

lemma pass_step1_log: "step1_pre s \<Longrightarrow> auditLog (pass env s) \<noteq> []"
proof -
  assume pre: "step1_pre s"
  then obtain x where x: "patientId s = Some x"
    by (auto simp: step1_pre_def falsy_id_def split: option.splits)
  show ?thesis
  proof (cases "getPatientData env x")
    case None
    with pre x show ?thesis by (simp add: pass_retrieve_missing)
  next
    case (Some p)
    with pre x show ?thesis by (simp add: pass_retrieve_found)
  qed
qed

lemma pass_step2_result:
  assumes "\<not> step1_pre s" and "step2_pre s" and "patientData s = Some p"
  shows "(case synthesizeClinicalData env p of
            Inr notes \<Rightarrow> synthesizedNotes (pass env s) = notes \<and> status (pass env s) = status s
          | Inl msg \<Rightarrow> status (pass env s) = agent_error \<and> error (pass env s) = Some msg)"
  using assms by (simp add: pass_def runWorkflow_def step2_def split: sum.splits)

lemma pass_step3_status:
  assumes "\<not> step1_pre s" and "\<not> step2_pre s" and "step3_pre s"
  shows "status (pass env s) = awaiting_approval \<or> status (pass env s) = agent_error"
  using assms by (simp add: pass_def runWorkflow_def step3_def Let_def split: sum.splits)

lemma pass_step4_status:
  assumes "\<not> step1_pre s" and "\<not> step2_pre s" and "\<not> step3_pre s" and "step4_pre s"
  shows "status (pass env s) = finished"
  using assms by (simp add: pass_finalize)

lemma pass_started_found:
  "pass example_env (started ''P1'') = (started ''P1'')\<lparr>auditLog :=
      [\<lparr>step = ''Start Workflow'', entry_status = completed,
         details = ''Initiating summary generation for patient: P1'',
         timestamp = ''10:00:00''\<rparr>,
       \<lparr>step = ''Retrieve Patient Data'', entry_status = completed,
         details = ''Successfully fetched data for Ann Lee.'',
         timestamp = ''10:00:00''\<rparr>],
      patientData := Some example_patient\<rparr>"
proof -
  have "step1_pre (started ''P1'')" by (simp add: step1_pre_started)
  moreover have "patientId (started ''P1'') = Some ''P1''" by (simp add: started_eq)
  moreover have "getPatientData example_env ''P1'' = Some example_patient"
    by (simp add: example_env_def)
  ultimately have "pass example_env (started ''P1'') = (started ''P1'')\<lparr>auditLog :=
      [\<lparr>step = ''Start Workflow'', entry_status = completed,
         details = ''Initiating summary generation for patient: '' @ ''P1'',
         timestamp = toLocaleTimeString example_env 0\<rparr>,
       \<lparr>step = ''Retrieve Patient Data'', entry_status = completed,
         details = ''Successfully fetched data for '' @ name (demographics example_patient) @ ''.'',
         timestamp = toLocaleTimeString example_env 1\<rparr>],
      patientData := Some example_patient\<rparr>"
    by (rule pass_retrieve_found)
  then show ?thesis
    by (simp add: example_env_def example_patient_def)
qed

text \<open>A pass after a pass, with nothing in between.\<close>

lemma pass_no_step:
  assumes "\<not> step1_pre s" and "\<not> step2_pre s" and "\<not> step3_pre s" and "\<not> step4_pre s"
  shows "pass env s = s"
  using assms by (simp add: pass_def runWorkflow_def)

lemma pass_settled:
  assumes "status s \<noteq> running" and "status s \<noteq> editing"
  shows "pass env s = s"
  using assms by (simp add: pass_def runWorkflow_waiting)

lemma pass_appends:
  assumes "step1_pre s \<or> step2_pre s \<or> step3_pre s \<or> step4_pre s"
  shows "length (auditLog s) < length (auditLog (pass env s))"
proof (cases "step1_pre s")
  case True
  then obtain x where "patientId s = Some x"
    by (auto simp: step1_pre_def falsy_id_def split: option.splits)
  with True show ?thesis
    by (simp add: pass_def runWorkflow_def step1_def split: option.splits)
next
  case n1: False
  show ?thesis
  proof (cases "step2_pre s")
    case True
    then obtain p where "patientData s = Some p"
      by (auto simp: step2_pre_def)
    with n1 True show ?thesis
      by (simp add: pass_def runWorkflow_def step2_def split: sum.splits)
  next
    case n2: False
    show ?thesis
    proof (cases "step3_pre s")
      case True
      with n1 n2 show ?thesis
        by (simp add: pass_def runWorkflow_def step3_def Let_def split: sum.splits)
    next
      case False
      with n1 n2 assms show ?thesis
        by (simp add: pass_def runWorkflow_def step4_def)
    qed
  qed
qed

lemma pass_retrieve_missing_again:
  assumes "step1_pre s" and "patientId s = Some x" and "getPatientData env x = None"
  shows "pass env (pass env s) = pass env s"
proof -
  have "status (pass env s) = agent_error"
    using assms by (simp add: pass_retrieve_missing)
  then show ?thesis by (simp add: pass_settled)
qed

lemma pass_synthesize_failed_again:
  assumes "\<not> step1_pre s" and "step2_pre s" and "patientData s = Some p"
    and "synthesizeClinicalData env p = Inl msg"
  shows "pass env (pass env s) = pass env s"
proof -
  have "status (pass env s) = agent_error"
    using pass_step2_result [OF assms(1-3), of env] assms(4) by simp
  then show ?thesis by (simp add: pass_settled)
qed

lemma pass_step3_again:
  assumes "\<not> step1_pre s" and "\<not> step2_pre s" and "step3_pre s"
  shows "pass env (pass env s) = pass env s"
  using pass_step3_status [OF assms, of env] by (auto simp: pass_settled)

lemma pass_step4_again:
  assumes "\<not> step1_pre s" and "\<not> step2_pre s" and "\<not> step3_pre s" and "step4_pre s"
  shows "pass env (pass env s) = pass env s"
  using pass_step4_status [OF assms, of env] by (simp add: pass_settled)

lemma pass_step2_log:
  assumes "\<not> step1_pre t" and "step2_pre t"
  shows "map step (auditLog (pass env t)) = map step (auditLog t) @ [''Synthesize Clinical Notes'']"
proof -
  obtain p where "patientData t = Some p"
    using assms(2) by (auto simp: step2_pre_def)
  with assms show ?thesis
    by (simp add: pass_def runWorkflow_def step2_def split: sum.splits)
qed

lemma pass_step3_log:
  assumes "\<not> step1_pre t" and "\<not> step2_pre t" and "step3_pre t" and "status t \<noteq> editing"
  shows "take (Suc (length (auditLog t))) (map step (auditLog (pass env t)))
           = map step (auditLog t) @ [''Generate Draft Summary'']"
  using assms by (simp add: pass_def runWorkflow_def step3_def Let_def split: sum.splits)

lemma pass_found_then_synthesis:
  assumes "step1_pre s" and "patientId s = Some x" and "getPatientData env x = Some p"
    and "synthesizedNotes s = []"
  shows "\<not> step1_pre (pass env s)" and "step2_pre (pass env s)"
    and "map step (auditLog (pass env (pass env s)))
           = map step (auditLog (pass env s)) @ [''Synthesize Clinical Notes'']"
proof -
  have run: "status s = running"
    using assms(1) by (simp add: step1_pre_def)
  show a: "\<not> step1_pre (pass env s)"
    by (simp add: pass_retrieve_found [OF assms(1-3)] step1_pre_def)
  show b: "step2_pre (pass env s)"
    using run assms(4) by (simp add: pass_retrieve_found [OF assms(1-3)] step2_pre_def)
  from a b show "map step (auditLog (pass env (pass env s)))
           = map step (auditLog (pass env s)) @ [''Synthesize Clinical Notes'']"
    by (rule pass_step2_log)
qed

lemma pass_notes_then_draft:
  assumes "\<not> step1_pre s" and "step2_pre s" and "patientData s = Some p"
    and "synthesizeClinicalData env p = Inr notes" and "notes \<noteq> []" and "draftSummary s = []"
  shows "\<not> step1_pre (pass env s)" and "\<not> step2_pre (pass env s)" and "step3_pre (pass env s)"
    and "take (Suc (length (auditLog (pass env s)))) (map step (auditLog (pass env (pass env s))))
           = map step (auditLog (pass env s)) @ [''Generate Draft Summary'']"
proof -
  have run: "status s = running"
    using assms(2) by (simp add: step2_pre_def)
  note eq = pass_synthesize_ok [OF assms(1-4)]
  show a: "\<not> step1_pre (pass env s)"
    by (simp add: eq step1_pre_def)
  show b: "\<not> step2_pre (pass env s)"
    using assms(5) by (simp add: eq step2_pre_def)
  show c: "step3_pre (pass env s)"
    using run assms(5,6) by (simp add: eq step3_pre_def)
  have "status (pass env s) \<noteq> editing"
    using run by (simp add: eq)
  with a b c show "take (Suc (length (auditLog (pass env s))))
        (map step (auditLog (pass env (pass env s))))
           = map step (auditLog (pass env s)) @ [''Generate Draft Summary'']"
    by (rule pass_step3_log)
qed


section \<open>The log is only revised\<close>

lemma revises_nth:
  "revises old new \<longleftrightarrow>
     length old \<le> length new
     \<and> (\<forall>i < length old. step (new ! i) = step (old ! i)
            \<and> timestamp (new ! i) = timestamp (old ! i))"
  by (auto simp: revises_def list_eq_iff_nth_eq)

lemma revises_refl [simp]: "revises xs xs"
  by (simp add: revises_def)

lemma revises_trans: "revises xs ys \<Longrightarrow> revises ys zs \<Longrightarrow> revises xs zs"
  by (fastforce simp: revises_nth)

lemma revises_append: "revises xs (xs @ ys)"
  by (simp add: revises_def)

lemma revises_updateAuditLogStatus:
  "revises (auditLog s) (auditLog (updateAuditLogStatus n st d s))"
  unfolding updateAuditLogStatus_def by (simp add: revises_def o_def cong: map_cong)

lemma revises_handleApprove: "revises (auditLog s) (auditLog (handleApprove s))"
  using revises_updateAuditLogStatus [of s] by (simp add: handleApprove_def)

lemma revises_handleRequestEdits: "revises (auditLog s) (auditLog (handleRequestEdits req s))"
  unfolding handleRequestEdits_def by (simp add: revises_def o_def cong: map_cong)

text \<open>Every updater that runWorkflow queues: an append, an update by a step name other
  than Human Review, or an updater that leaves the log alone.\<close>

lemma workflow_updater_cases:
  assumes "b \<in> set (runWorkflow env snap)" and "u \<in> set b"
  obtains (append) n d st where "u = addAuditLog env n d st"
  | (update) n st d where "u = updateAuditLogStatus n st d" and "n \<noteq> ''Human Review''"
  | (fields) "\<And>t. auditLog (u t) = auditLog t"
proof (cases rule: runWorkflow_cases [of env snap])
  case none
  with assms show ?thesis by simp
next
  case (retrieve x)
  with assms have "u \<in> set (concat (step1 env x))" by auto
  then show ?thesis
    using append update fields
    by (auto simp: step1_def split: option.splits)
next
  case (synthesize p)
  with assms have "u \<in> set (concat (step2 env p))" by auto
  then show ?thesis
    using append update fields
    by (auto simp: step2_def split: sum.splits)
next
  case draft
  with assms have "u \<in> set (concat (step3 env snap))" by auto
  then show ?thesis
    using append update fields
    by (auto simp: step3_def Let_def split: sum.splits if_splits)
next
  case finalize
  with assms have "u \<in> set (concat (step4 env))" by auto
  then show ?thesis
    using append update fields
    by (auto simp: step4_def)
qed

lemma apply_batch_rel:
  assumes each: "\<And>u t. u \<in> set b \<Longrightarrow> Q (auditLog t) (auditLog (u t))"
    and refl: "\<And>xs. Q xs xs" and trans: "\<And>xs ys zs. Q xs ys \<Longrightarrow> Q ys zs \<Longrightarrow> Q xs zs"
  shows "Q (auditLog t) (auditLog (apply_batch b t))"
  using each
proof (induction b arbitrary: t)
  case Nil
  show ?case by (simp add: refl)
next
  case (Cons u us)
  have "Q (auditLog t) (auditLog (u t))"
    by (rule Cons.prems) simp
  moreover have "Q (auditLog (u t)) (auditLog (apply_batch us (u t)))"
    by (rule Cons.IH) (simp add: Cons.prems)
  ultimately have "Q (auditLog t) (auditLog (apply_batch us (u t)))"
    by (rule trans)
  then show ?case by simp
qed

lemma workflow_batch_rel:
  assumes batch: "workflow_batch env b"
    and refl: "\<And>xs. Q xs xs" and trans: "\<And>xs ys zs. Q xs ys \<Longrightarrow> Q ys zs \<Longrightarrow> Q xs zs"
    and app: "\<And>xs e. Q xs (xs @ [e])"
    and upd: "\<And>n st d t. n \<noteq> ''Human Review'' \<Longrightarrow>
                Q (auditLog t) (auditLog (updateAuditLogStatus n st d t))"
  shows "Q (auditLog t) (auditLog (apply_batch b t))"
proof (rule apply_batch_rel [where Q = Q, OF _ refl trans])
  fix u t
  assume u: "u \<in> set b"
  from batch obtain snap where "b \<in> set (runWorkflow env snap)"
    by (auto simp: workflow_batch_def)
  from this u show "Q (auditLog t) (auditLog (u t))"
    by (cases rule: workflow_updater_cases) (simp_all add: app upd refl)
qed

lemma effect_rel:
  assumes refl: "\<And>xs. Q xs xs" and trans: "\<And>xs ys zs. Q xs ys \<Longrightarrow> Q ys zs \<Longrightarrow> Q xs zs"
    and app: "\<And>xs e. Q xs (xs @ [e])"
    and upd: "\<And>n st d t. n \<noteq> ''Human Review'' \<Longrightarrow>
                Q (auditLog t) (auditLog (updateAuditLogStatus n st d t))"
  shows "Q (auditLog (current c)) (auditLog (current (effect env r c)))"
proof (induction env r c rule: effect.induct)
  case (1 env rendered c)
  show ?case
  proof (cases "deps (current c) = deps rendered")
    case True
    then show ?thesis by (simp add: effect_unchanged refl)
  next
    case changed: False
    show ?thesis
    proof (cases "runWorkflow env (current c)")
      case Nil
      then show ?thesis by (simp add: effect_no_step refl)
    next
      case (Cons b bs)
      then have "workflow_batch env b"
        by (auto simp: workflow_batch_def intro: exI [of _ "current c"])
      then have "Q (auditLog (current c)) (auditLog (apply_batch b (current c)))"
        using refl trans app upd by (rule workflow_batch_rel)
      moreover have "Q (auditLog (apply_batch b (current c)))
          (auditLog (current (effect env (current c)
             \<lparr>current = apply_batch b (current c), tasks = enqueue bs (tasks c)\<rparr>)))"
        using "1.IH" [OF changed Cons] by simp
      ultimately have "Q (auditLog (current c))
          (auditLog (current (effect env (current c)
             \<lparr>current = apply_batch b (current c), tasks = enqueue bs (tasks c)\<rparr>)))"
        by (rule trans)
      then show ?thesis
        using changed Cons by (simp add: effect_spawn)
    qed
  qed
qed

lemma workflow_batch_revises:
  assumes "workflow_batch env b"
  shows "revises (auditLog t) (auditLog (apply_batch b t))"
  using assms revises_refl revises_trans revises_append revises_updateAuditLogStatus
  by (rule workflow_batch_rel)

lemma effect_revises:
  "revises (auditLog (current c)) (auditLog (current (effect env r c)))"
  using revises_refl revises_trans revises_append revises_updateAuditLogStatus
  by (rule effect_rel)

lemma effect_workflow_tasks:
  "workflow_tasks env (tasks c) \<Longrightarrow> workflow_tasks env (tasks (effect env r c))"
proof (induction env r c rule: effect.induct)
  case (1 env rendered c)
  show ?case
  proof (cases "deps (current c) = deps rendered")
    case True
    with "1.prems" show ?thesis by (simp add: effect_unchanged)
  next
    case changed: False
    show ?thesis
    proof (cases "runWorkflow env (current c)")
      case Nil
      with "1.prems" show ?thesis by (simp add: effect_no_step)
    next
      case (Cons b bs)
      then have "\<forall>b' \<in> set bs. workflow_batch env b'"
        by (auto simp: workflow_batch_def intro: exI [of _ "current c"])
      with "1.prems" have "workflow_tasks env (enqueue bs (tasks c))"
        by (auto simp: workflow_tasks_def enqueue_def)
      with "1.IH" [OF changed Cons] changed Cons show ?thesis
        by (simp add: effect_spawn)
    qed
  qed
qed

lemma workflow_tasks_resume:
  assumes "workflow_tasks env ts" and "i < length ts" and "ts ! i = b # bs"
  shows "workflow_batch env b"
    and "workflow_tasks env (take i ts @ (if bs = [] then [] else [bs]) @ drop (Suc i) ts)"
proof -
  have mem: "b # bs \<in> set ts"
    using assms(2,3) by (metis nth_mem)
  with assms(1) show "workflow_batch env b"
    by (auto simp: workflow_tasks_def)
  have "set (take i ts) \<subseteq> set ts" and "set (drop (Suc i) ts) \<subseteq> set ts"
    by (simp_all add: set_take_subset set_drop_subset)
  with assms(1) mem
  show "workflow_tasks env (take i ts @ (if bs = [] then [] else [bs]) @ drop (Suc i) ts)"
    by (auto simp: workflow_tasks_def)
qed

lemma dispatch_workflow_tasks:
  assumes "workflow_tasks env (tasks c)"
  shows "workflow_tasks env (tasks (dispatch env c ev))"
proof (cases ev)
  case (Resume i)
  show ?thesis
  proof (cases "i < length (tasks c)")
    case False
    with Resume assms show ?thesis by simp
  next
    case True
    show ?thesis
    proof (cases "tasks c ! i")
      case Nil
      with True Resume assms show ?thesis by simp
    next
      case (Cons b bs)
      from workflow_tasks_resume(2) [OF assms True Cons]
      have "workflow_tasks env (tasks (effect env (current c)
          \<lparr>current = apply_batch b (current c),
           tasks = take i (tasks c) @ (if bs = [] then [] else [bs]) @ drop (Suc i) (tasks c)\<rparr>))"
        by (intro effect_workflow_tasks) simp
      with True Cons Resume show ?thesis by simp
    qed
  qed
qed (use assms in \<open>simp_all add: commit_def effect_workflow_tasks\<close>)

lemma run_workflow_tasks:
  "workflow_tasks env (tasks c) \<Longrightarrow> workflow_tasks env (tasks (run env c evs))"
  by (induction evs arbitrary: c) (simp_all add: run_Nil run_Cons dispatch_workflow_tasks)

lemma commit_revises:
  assumes "revises (auditLog (current c)) (auditLog s)"
  shows "revises (auditLog (current c)) (auditLog (current (commit env c s)))"
proof -
  have "revises (auditLog s) (auditLog (current (commit env c s)))"
    using effect_revises [of "c\<lparr>current := s\<rparr>" env "current c"] by (simp add: commit_def)
  with assms show ?thesis by (rule revises_trans)
qed

lemma dispatch_revises:
  assumes "within_run ev" and "workflow_tasks env (tasks c)"
  shows "revises (auditLog (current c)) (auditLog (current (dispatch env c ev)))"
proof (cases ev)
  case Approve
  then show ?thesis by (simp add: commit_revises revises_handleApprove)
next
  case (RequestEdits req)
  then show ?thesis by (simp add: commit_revises revises_handleRequestEdits)
next
  case (Resume i)
  show ?thesis
  proof (cases "i < length (tasks c)")
    case False
    with Resume show ?thesis by simp
  next
    case True
    show ?thesis
    proof (cases "tasks c ! i")
      case Nil
      with True Resume show ?thesis by simp
    next
      case (Cons b bs)
      have "workflow_batch env b"
        using assms(2) True Cons by (rule workflow_tasks_resume(1))
      then have "revises (auditLog (current c)) (auditLog (apply_batch b (current c)))"
        by (rule workflow_batch_revises)
      moreover have "revises (auditLog (apply_batch b (current c)))
          (auditLog (current (effect env (current c)
            \<lparr>current = apply_batch b (current c),
             tasks = take i (tasks c) @ (if bs = [] then [] else [bs]) @ drop (Suc i) (tasks c)\<rparr>)))"
        using effect_revises [of "\<lparr>current = apply_batch b (current c),
             tasks = take i (tasks c) @ (if bs = [] then [] else [bs]) @ drop (Suc i) (tasks c)\<rparr>"
             env "current c"]
        by simp
      ultimately have "revises (auditLog (current c))
          (auditLog (current (effect env (current c)
            \<lparr>current = apply_batch b (current c),
             tasks = take i (tasks c) @ (if bs = [] then [] else [bs]) @ drop (Suc i) (tasks c)\<rparr>)))"
        by (rule revises_trans)
      then show ?thesis
        using True Cons Resume by simp
    qed
  qed
qed (use assms in simp_all)

lemma run_revises:
  assumes "list_all within_run evs" and "workflow_tasks env (tasks c)"
  shows "revises (auditLog (current c)) (auditLog (current (run env c evs)))"
  using assms
proof (induction evs arbitrary: c)
  case Nil
  show ?case by (simp add: run_Nil)
next
  case (Cons ev evs)
  have "revises (auditLog (current c)) (auditLog (current (dispatch env c ev)))"
    using Cons.prems by (simp add: dispatch_revises)
  moreover have "revises (auditLog (current (dispatch env c ev)))
      (auditLog (current (run env (dispatch env c ev) evs)))"
    using Cons.prems by (intro Cons.IH) (simp_all add: dispatch_workflow_tasks)
  ultimately have "revises (auditLog (current c))
      (auditLog (current (run env (dispatch env c ev) evs)))"
    by (rule revises_trans)
  then show ?case
    by (simp add: run_Cons)
qed

section \<open>The edit cycle\<close>

lemma effect_tasks_extend:
  "\<exists>extra. tasks (effect env r c) = tasks c @ extra \<and> workflow_tasks env extra"
proof (induction env r c rule: effect.induct)
  case (1 env rendered c)
  show ?case
  proof (cases "deps (current c) = deps rendered")
    case True
    then show ?thesis by (simp add: effect_unchanged workflow_tasks_def)
  next
    case changed: False
    show ?thesis
    proof (cases "runWorkflow env (current c)")
      case Nil
      then show ?thesis by (simp add: effect_no_step workflow_tasks_def)
    next
      case (Cons b bs)
      then have bs: "\<forall>b' \<in> set bs. workflow_batch env b'"
        by (auto simp: workflow_batch_def intro: exI [of _ "current c"])
      from "1.IH" [OF changed Cons] obtain extra where
        "tasks (effect env (current c)
            \<lparr>current = apply_batch b (current c), tasks = enqueue bs (tasks c)\<rparr>)
         = enqueue bs (tasks c) @ extra" and "workflow_tasks env extra"
        by auto
      with bs have "tasks (effect env rendered c)
            = tasks c @ ((if bs = [] then [] else [bs]) @ extra)
          \<and> workflow_tasks env ((if bs = [] then [] else [bs]) @ extra)"
        using changed Cons by (auto simp: effect_spawn enqueue_def workflow_tasks_def)
      then show ?thesis by blast
    qed
  qed
qed

lemma preserves_reviews_refl: "preserves_reviews xs xs"
  by (simp add: preserves_reviews_def)

lemma preserves_reviews_trans:
  assumes "preserves_reviews xs ys" and "preserves_reviews ys zs"
  shows "preserves_reviews xs zs"
  unfolding preserves_reviews_def
proof (intro conjI allI impI)
  show "length xs \<le> length zs"
    using assms by (simp add: preserves_reviews_def)
next
  fix i assume i: "i < length xs"
  then have j: "i < length ys"
    using assms(1) by (simp add: preserves_reviews_def)
  show "step (zs ! i) = step (xs ! i)"
    using assms i j by (simp add: preserves_reviews_def)
  assume "step (xs ! i) = ''Human Review''"
  then have "ys ! i = xs ! i"
    using assms(1) i by (simp add: preserves_reviews_def)
  moreover from this \<open>step (xs ! i) = ''Human Review''\<close> have "zs ! i = ys ! i"
    using assms(2) j by (simp add: preserves_reviews_def)
  ultimately show "zs ! i = xs ! i" by simp
qed

lemma preserves_reviews_append: "preserves_reviews xs (xs @ [e])"
  by (simp add: preserves_reviews_def nth_append)

lemma preserves_reviews_update:
  "n \<noteq> ''Human Review'' \<Longrightarrow>
     preserves_reviews (auditLog t) (auditLog (updateAuditLogStatus n st d t))"
  by (simp add: preserves_reviews_def updateAuditLogStatus_def)

lemmas preserves_reviews_rel =
  preserves_reviews_refl preserves_reviews_trans preserves_reviews_append
  preserves_reviews_update

lemma workflow_batch_preserves_reviews:
  assumes "workflow_batch env b"
  shows "preserves_reviews (auditLog t) (auditLog (apply_batch b t))"
  using assms preserves_reviews_refl preserves_reviews_trans preserves_reviews_append
    preserves_reviews_update
  by (rule workflow_batch_rel)

lemma effect_preserves_reviews:
  "preserves_reviews (auditLog (current c)) (auditLog (current (effect env r c)))"
  using preserves_reviews_refl preserves_reviews_trans preserves_reviews_append
    preserves_reviews_update
  by (rule effect_rel)

lemma step3_editing:
  assumes "status s = editing"
    and "generateDraftSummary env (synthesizedNotes s) (patientData s) (editRequest s) = Inr draft"
  shows "runWorkflow env s =
     [[addAuditLog env ''Regenerate Draft''
         ''Applying requested edits and regenerating summary.'' in_progress,
       (\<lambda>prevState. prevState\<lparr>status := running\<rparr>)],
      regenerated env draft]"
  using assms
  by (simp add: runWorkflow_def step1_pre_def step2_pre_def step3_pre_def step3_def
      regenerated_def Let_def)

lemma request_awaiting_draft:
  assumes "status s \<noteq> editing"
    and "generateDraftSummary env (synthesizedNotes s) (patientData s) req = Inr draft"
  shows "awaiting_draft env draft (regenerating env (handleRequestEdits req s))
           (dispatch env \<lparr>current = s, tasks = []\<rparr> (RequestEdits req))"
proof -
  define E where "E = handleRequestEdits req s"
  define R where "R = regenerating env E"
  have E: "status E = editing" "synthesizedNotes E = synthesizedNotes s"
    "patientData E = patientData s" "editRequest E = req"
    by (simp_all add: E_def handleRequestEdits_def)
  have rw: "runWorkflow env E =
     [[addAuditLog env ''Regenerate Draft''
         ''Applying requested edits and regenerating summary.'' in_progress,
       (\<lambda>prevState. prevState\<lparr>status := running\<rparr>)],
      regenerated env draft]"
    using E assms(2) by (intro step3_editing) simp_all
  have "deps E \<noteq> deps s"
    using assms(1) E(1) by (auto simp: deps_def)
  then have "dispatch env \<lparr>current = s, tasks = []\<rparr> (RequestEdits req)
      = effect env E \<lparr>current = R, tasks = [[regenerated env draft]]\<rparr>"
    using rw
    by (simp add: commit_def E_def [symmetric] effect_spawn enqueue_def R_def regenerating_def)
  moreover obtain extra where
    "tasks (effect env E \<lparr>current = R, tasks = [[regenerated env draft]]\<rparr>)
       = [[regenerated env draft]] @ extra" and "workflow_tasks env extra"
    using effect_tasks_extend [of env E "\<lparr>current = R, tasks = [[regenerated env draft]]\<rparr>"]
    by auto
  moreover have "preserves_reviews (auditLog R)
      (auditLog (current (effect env E \<lparr>current = R, tasks = [[regenerated env draft]]\<rparr>)))"
    using effect_preserves_reviews [of "\<lparr>current = R, tasks = [[regenerated env draft]]\<rparr>" env E]
    by simp
  ultimately show ?thesis
    by (simp add: awaiting_draft_def R_def E_def)
qed

lemma resume_awaiting_draft:
  assumes inv: "awaiting_draft env draft r c" and j: "0 < j"
  shows "awaiting_draft env draft r (dispatch env c (Resume j))"
proof -
  from inv obtain ts where ts: "tasks c = [regenerated env draft] # ts"
    and wf: "workflow_tasks env ts"
    and keep: "preserves_reviews (auditLog r) (auditLog (current c))"
    by (auto simp: awaiting_draft_def)
  from j obtain k where k: "j = Suc k"
    by (cases j) simp_all
  show ?thesis
  proof (cases "k < length ts")
    case False
    with ts k inv show ?thesis by simp
  next
    case True
    show ?thesis
    proof (cases "ts ! k")
      case Nil
      with True ts k inv show ?thesis by simp
    next
      case (Cons b bs)
      define rest where "rest = take k ts @ (if bs = [] then [] else [bs]) @ drop (Suc k) ts"
      define c' where "c' = \<lparr>current = apply_batch b (current c),
          tasks = [regenerated env draft] # rest\<rparr>"
      have b: "workflow_batch env b" and rest: "workflow_tasks env rest"
        unfolding rest_def using workflow_tasks_resume [OF wf True Cons] by simp_all
      have step: "dispatch env c (Resume j) = effect env (current c) c'"
        using True Cons ts k by (simp add: c'_def rest_def)
      obtain extra where extra: "tasks (effect env (current c) c') = tasks c' @ extra"
        and wfe: "workflow_tasks env extra"
        using effect_tasks_extend [of env "current c" c'] by auto
      have "preserves_reviews (auditLog (current c)) (auditLog (current c'))"
        using b by (simp add: c'_def workflow_batch_preserves_reviews)
      with keep have "preserves_reviews (auditLog r) (auditLog (current c'))"
        by (rule preserves_reviews_trans)
      moreover have "preserves_reviews (auditLog (current c'))
          (auditLog (current (effect env (current c) c')))"
        by (rule effect_preserves_reviews)
      ultimately have "preserves_reviews (auditLog r)
          (auditLog (current (effect env (current c) c')))"
        by (rule preserves_reviews_trans)
      moreover have "workflow_tasks env (rest @ extra)"
        using rest wfe by (auto simp: workflow_tasks_def)
      ultimately show ?thesis
        unfolding step awaiting_draft_def using extra by (simp add: c'_def)
    qed
  qed
qed

lemma run_awaiting_draft:
  assumes "awaiting_draft env draft r c" and "\<forall>j \<in> set js. 0 < j"
  shows "awaiting_draft env draft r (run env c (map Resume js))"
  using assms
  by (induction js arbitrary: c)
    (simp_all add: run_Nil run_Cons resume_awaiting_draft del: dispatch.simps)

lemma draft_arrives:
  assumes "awaiting_draft env draft r c"
  shows "current (dispatch env c (Resume 0)) = apply_batch (regenerated env draft) (current c)"
proof -
  from assms obtain ts where ts: "tasks c = [regenerated env draft] # ts"
    by (auto simp: awaiting_draft_def)
  have "status (apply_batch (regenerated env draft) (current c)) = awaiting_approval"
    by (simp add: regenerated_def)
  then show ?thesis
    using ts by (simp add: effect_waiting)
qed

text \<open>
  The state at the moment the regenerated draft arrives, from a state that awaits
  approval with nothing pending and whatever other pending task resumed in between:
  every earlier \<open>Human Review\<close> entry is completed with the request as its details, a
  new \<open>Regenerate Draft\<close> entry is completed, the last entry is a new \<open>Human Review\<close>
  entry in status \<open>human_input\<close>, the draft is the new one, the status is
  \<open>awaiting_approval\<close> and \<open>editRequest\<close> is empty. Nothing is said here of the tasks
  that are still pending at that moment.
\<close>

lemma edit_cycle_when_draft_arrives:
  assumes waiting: "status s = awaiting_approval" and "draftSummary s = ''D1''"
    and drafted: "generateDraftSummary env (synthesizedNotes s) (patientData s)
                    ''add allergy info'' = Inr ''D2''"
    and others: "\<forall>j \<in> set js. 0 < j"
    and f: "f = current (run env \<lparr>current = s, tasks = []\<rparr>
                  (edit_cycle ''add allergy info'' js))"
  shows "(\<forall>i < length (auditLog s). step (auditLog s ! i) = ''Human Review'' \<longrightarrow>
            auditLog f ! i = (auditLog s ! i)\<lparr>entry_status := completed,
              details := ''Clinician requested edits: '' @ [CHR 0x22] @ ''add allergy info''
                           @ [CHR 0x22]\<rparr>)
     \<and> length (auditLog s) + 2 \<le> length (auditLog f)
     \<and> step (auditLog f ! length (auditLog s)) = ''Regenerate Draft''
     \<and> entry_status (auditLog f ! length (auditLog s)) = completed
     \<and> step (last (auditLog f)) = ''Human Review''
     \<and> entry_status (last (auditLog f)) = human_input
     \<and> draftSummary f = ''D2'' \<and> status f = awaiting_approval \<and> editRequest f = []"
proof -
  define R where "R = regenerating env (handleRequestEdits ''add allergy info'' s)"
  define c1 where "c1 = dispatch env \<lparr>current = s, tasks = []\<rparr> (RequestEdits ''add allergy info'')"
  define c2 where "c2 = run env c1 (map Resume js)"
  define L where "L = auditLog (current c2)"
  define n where "n = length (auditLog s)"
  have "awaiting_draft env ''D2'' R c1"
    unfolding R_def c1_def using drafted waiting by (intro request_awaiting_draft) simp_all
  then have inv: "awaiting_draft env ''D2'' R c2"
    unfolding c2_def using others by (rule run_awaiting_draft)
  have "run env \<lparr>current = s, tasks = []\<rparr> (edit_cycle ''add allergy info'' js)
      = dispatch env c2 (Resume 0)"
    by (simp add: edit_cycle_def run_Cons run_append run_Nil c1_def c2_def del: dispatch.simps)
  then have f': "f = apply_batch (regenerated env ''D2'') (current c2)"
    using f draft_arrives [OF inv] by simp
  have logR: "auditLog R =
      map (\<lambda>log. if step log = ''Human Review''
                 then log\<lparr>entry_status := completed,
                        details := editLogDetails ''add allergy info''\<rparr>
                 else log) (auditLog s)
      @ [\<lparr>step = ''Regenerate Draft'', entry_status = in_progress,
           details = ''Applying requested edits and regenerating summary.'',
           timestamp = toLocaleTimeString env (length (auditLog s))\<rparr>]"
    by (simp add: R_def regenerating_def handleRequestEdits_def)
  have keep: "preserves_reviews (auditLog R) L"
    using inv by (simp add: awaiting_draft_def L_def)
  have len: "n < length L"
    using keep by (simp add: preserves_reviews_def logR n_def)
  have at_n: "step (L ! n) = ''Regenerate Draft''"
  proof -
    have "n < length (auditLog R)" and "step (auditLog R ! n) = ''Regenerate Draft''"
      by (simp_all add: logR n_def nth_append)
    with keep show ?thesis
      by (simp add: preserves_reviews_def)
  qed
  have reviews: "L ! i = (auditLog s ! i)\<lparr>entry_status := completed,
        details := editLogDetails ''add allergy info''\<rparr>"
    if "i < n" and "step (auditLog s ! i) = ''Human Review''" for i
  proof -
    have "i < length (auditLog R)" and "step (auditLog R ! i) = ''Human Review''"
      and "auditLog R ! i = (auditLog s ! i)\<lparr>entry_status := completed,
        details := editLogDetails ''add allergy info''\<rparr>"
      using that by (simp_all add: logR n_def nth_append)
    with keep show ?thesis
      by (simp add: preserves_reviews_def)
  qed
  have logf: "auditLog f =
      map (\<lambda>log. if step log = ''Regenerate Draft''
                 then log\<lparr>entry_status := completed,
                        details := ''Draft generated. Awaiting human review.''\<rparr>
                 else log) L
      @ [\<lparr>step = ''Human Review'', entry_status = human_input,
           details = ''Waiting for clinician approval.'',
           timestamp = toLocaleTimeString env (length L)\<rparr>]"
    by (simp add: f' regenerated_def L_def updateAuditLogStatus_def or_details_def)
  have "auditLog f ! i = (auditLog s ! i)\<lparr>entry_status := completed,
        details := ''Clinician requested edits: '' @ [CHR 0x22] @ ''add allergy info''
                           @ [CHR 0x22]\<rparr>"
    if "i < n" and "step (auditLog s ! i) = ''Human Review''" for i
  proof -
    have "i < length L" using that(1) len by simp
    then have "auditLog f ! i = (if step (L ! i) = ''Regenerate Draft''
                 then (L ! i)\<lparr>entry_status := completed,
                        details := ''Draft generated. Awaiting human review.''\<rparr>
                 else L ! i)"
      by (simp add: logf nth_append)
    then show ?thesis
      using reviews [OF that] that(2) by (simp add: editLogDetails_def)
  qed
  moreover have "auditLog f ! n = (L ! n)\<lparr>entry_status := completed,
        details := ''Draft generated. Awaiting human review.''\<rparr>"
    using len at_n by (simp add: logf nth_append)
  moreover have "length (auditLog f) = Suc (length L)" and "status f = awaiting_approval"
    and "draftSummary f = ''D2''" and "editRequest f = []"
    and "step (last (auditLog f)) = ''Human Review''"
    and "entry_status (last (auditLog f)) = human_input"
    by (simp_all add: logf) (simp_all add: f' regenerated_def)
  ultimately show ?thesis
    using len at_n by (simp add: n_def)
qed

section \<open>Entries in progress during an attended run\<close>

lemma in_progress_count_open: "in_progress_count s = length (open_steps s)"
  by (simp add: in_progress_count_def open_steps_def)

lemma open_steps_addAuditLog [simp]:
  "open_steps (addAuditLog env n d st t) = open_steps t @ (if st = in_progress then [n] else [])"
  by (simp add: open_steps_def)

lemma open_steps_update_list:
  "st \<noteq> in_progress \<Longrightarrow>
     map step (filter (\<lambda>log. entry_status log = in_progress)
       (map (\<lambda>log. if step log = n
                     then log\<lparr>entry_status := st, details := f log\<rparr> else log) xs))
     = filter (\<lambda>x. x \<noteq> n) (map step (filter (\<lambda>log. entry_status log = in_progress) xs))"
  by (induction xs) auto

lemma open_steps_update [simp]:
  "st \<noteq> in_progress \<Longrightarrow>
     open_steps (updateAuditLogStatus n st d t) = filter (\<lambda>x. x \<noteq> n) (open_steps t)"
  by (simp add: open_steps_def updateAuditLogStatus_def open_steps_update_list)

lemma open_steps_fields [simp]:
  "open_steps (t\<lparr>patientData := pd\<rparr>) = open_steps t"
  "open_steps (t\<lparr>synthesizedNotes := sn\<rparr>) = open_steps t"
  "open_steps (t\<lparr>draftSummary := ds\<rparr>) = open_steps t"
  "open_steps (t\<lparr>finalSummary := fs\<rparr>) = open_steps t"
  "open_steps (t\<lparr>status := st\<rparr>) = open_steps t"
  "open_steps (t\<lparr>error := er\<rparr>) = open_steps t"
  "open_steps (t\<lparr>editRequest := rq\<rparr>) = open_steps t"
  by (simp_all add: open_steps_def)

lemma open_steps_handleApprove [simp]:
  "open_steps (handleApprove t) = filter (\<lambda>x. x \<noteq> ''Human Review'') (open_steps t)"
  by (simp add: handleApprove_def)

lemma open_steps_handleRequestEdits [simp]:
  "open_steps (handleRequestEdits req t) = filter (\<lambda>x. x \<noteq> ''Human Review'') (open_steps t)"
  by (simp add: open_steps_def handleRequestEdits_def open_steps_update_list)

lemma open_steps_empty_log: "auditLog t = [] \<Longrightarrow> open_steps t = []"
  by (simp add: open_steps_def)

text \<open>The batches of step 1.\<close>

lemma step1_nth: "step1 env x = [step1 env x ! 0, step1 env x ! Suc 0, step1 env x ! 2]"
  by (simp add: step1_def)

lemma step1_rest:
  "tl (step1 env x) = [step1 env x ! Suc 0, step1 env x ! 2]"
  "drop 2 (step1 env x) = [step1 env x ! 2]"
  by (simp_all add: step1_def)

lemma step1_first [simp]:
  "open_steps (apply_batch (step1 env x ! 0) t) = open_steps t @ [''Start Workflow'']"
  by (simp add: step1_def)

lemma step1_second [simp]:
  "open_steps (apply_batch (step1 env x ! Suc 0) t) = open_steps t @ [''Retrieve Patient Data'']"
  "deps (apply_batch (step1 env x ! Suc 0) t) = deps t"
  "status (apply_batch (step1 env x ! Suc 0) t) = status t"
  by (simp_all add: step1_def)

lemma step1_third:
  "(\<forall>t. open_steps (apply_batch (step1 env x ! 2) t)
          = filter (\<lambda>x. x \<noteq> ''Retrieve Patient Data'')
              (filter (\<lambda>x. x \<noteq> ''Start Workflow'') (open_steps t))
        \<and> status (apply_batch (step1 env x ! 2) t) = status t)
   \<or> (\<forall>t. open_steps (apply_batch (step1 env x ! 2) t)
          = filter (\<lambda>x. x \<noteq> ''Retrieve Patient Data'') (open_steps t)
        \<and> status (apply_batch (step1 env x ! 2) t) = agent_error)"
  by (cases "getPatientData env x") (simp_all add: step1_def)

text \<open>The batches of a step other than step 1, outside an edit.\<close>

lemma later_step_batches:
  assumes "status t \<noteq> editing" and "\<not> step1_pre t" and "runWorkflow env t = b # bs"
  obtains nm B where "bs = [B]" and "closes nm B" and "nm \<noteq> ''Regenerate Draft''"
    and "\<And>t'. open_steps (apply_batch b t') = open_steps t' @ [nm]"
proof (cases rule: runWorkflow_cases [of env t])
  case none
  with assms show ?thesis by simp
next
  case (retrieve x)
  with assms show ?thesis by simp
next
  case (synthesize p)
  have "step2 env p = [step2 env p ! 0, step2 env p ! 1]"
    by (simp add: step2_def)
  with assms(3) synthesize(4) have b: "b = step2 env p ! 0" and bs: "bs = [step2 env p ! 1]"
    by simp_all
  show ?thesis
  proof (rule that [of "step2 env p ! 1" "''Synthesize Clinical Notes''"])
    show "closes ''Synthesize Clinical Notes'' (step2 env p ! 1)"
      by (simp add: closes_def step2_def split: sum.splits)
    show "open_steps (apply_batch b t') = open_steps t' @ [''Synthesize Clinical Notes'']" for t'
      by (simp add: b step2_def)
  qed (simp_all add: bs)
next
  case draft
  have "step3 env t = [step3 env t ! 0, step3 env t ! 1]"
    by (simp add: step3_def Let_def)
  with assms(3) draft(4) have b: "b = step3 env t ! 0" and bs: "bs = [step3 env t ! 1]"
    by simp_all
  show ?thesis
  proof (rule that [of "step3 env t ! 1" "''Generate Draft Summary''"])
    show "closes ''Generate Draft Summary'' (step3 env t ! 1)"
      using assms(1) by (simp add: closes_def step3_def Let_def split: sum.splits)
    show "open_steps (apply_batch b t') = open_steps t' @ [''Generate Draft Summary'']" for t'
      using assms(1) by (simp add: b step3_def Let_def)
  qed (simp_all add: bs)
next
  case finalize
  have "step4 env = [step4 env ! 0, step4 env ! 1]"
    by (simp add: step4_def)
  with assms(3) finalize(5) have b: "b = step4 env ! 0" and bs: "bs = [step4 env ! 1]"
    by simp_all
  show ?thesis
  proof (rule that [of "step4 env ! 1" "''Finalize Summary''"])
    show "closes ''Finalize Summary'' (step4 env ! 1)"
      by (simp add: closes_def step4_def)
    show "open_steps (apply_batch b t') = open_steps t' @ [''Finalize Summary'']" for t'
      by (simp add: b step4_def)
  qed (simp_all add: bs)
qed

text \<open>The batches of step 3 during an edit.\<close>

lemma editing_batches:
  assumes "status t = editing"
  obtains b B where "runWorkflow env t = [b, B]" and "closes ''Regenerate Draft'' B"
    and "halts B"
    and "\<And>t'. open_steps (apply_batch b t') = open_steps t' @ [''Regenerate Draft'']"
    and "\<And>t'. status (apply_batch b t') = running"
proof (rule that [of "step3 env t ! 0" "step3 env t ! 1"])
  show "runWorkflow env t = [step3 env t ! 0, step3 env t ! 1]"
    using assms
    by (simp add: runWorkflow_def step1_pre_def step2_pre_def step3_pre_def step3_def Let_def)
  show "closes ''Regenerate Draft'' (step3 env t ! 1)"
    using assms by (simp add: closes_def step3_def Let_def split: sum.splits)
  show "halts (step3 env t ! 1)"
    using assms by (simp add: halts_def step3_def Let_def split: sum.splits)
  show "open_steps (apply_batch (step3 env t ! 0) t') = open_steps t' @ [''Regenerate Draft'']"
    for t'
    using assms by (simp add: step3_def Let_def)
  show "status (apply_batch (step3 env t ! 0) t') = running" for t'
    using assms by (simp add: step3_def Let_def)
qed

lemma step1_pre_runWorkflow:
  assumes "step1_pre t"
  obtains x where "runWorkflow env t = step1 env x"
  using assms
  by (auto simp: runWorkflow_def step1_pre_def falsy_id_def split: option.splits)

lemma orderly_effect_idle:
  assumes st: "status t \<noteq> editing" and quiet: "open_steps t = []"
  shows "orderly env (effect env r \<lparr>current = t, tasks = []\<rparr>)"
proof (cases "deps t = deps r \<or> runWorkflow env t = []")
  case True
  then have "effect env r \<lparr>current = t, tasks = []\<rparr> = \<lparr>current = t, tasks = []\<rparr>"
    by (auto simp: effect_unchanged effect_no_step)
  with st quiet show ?thesis
    by (simp add: orderly.resting)
next
  case False
  then obtain b bs where run: "runWorkflow env t = b # bs" and changed: "deps t \<noteq> deps r"
    by (cases "runWorkflow env t") auto
  have eff: "effect env r \<lparr>current = t, tasks = []\<rparr>
      = \<lparr>current = apply_batch b t, tasks = enqueue bs []\<rparr>"
    using changed st run by (simp add: effect_once)
  have st': "status (apply_batch b t) \<noteq> editing"
    using first_batch_deps [OF run st] st by (simp add: deps_def)
  show ?thesis
  proof (cases "step1_pre t")
    case True
    then obtain x where x: "runWorkflow env t = step1 env x"
      by (rule step1_pre_runWorkflow)
    from run x step1_nth [of env x] have "b = step1 env x ! 0" and "bs = tl (step1 env x)"
      by simp_all
    with eff st' quiet show ?thesis
      by (intro orderly.starting [of _ env x]) (simp_all add: enqueue_def step1_rest)
  next
    case False
    with st have ?thesis if "\<And>nm B. bs = [B] \<Longrightarrow> closes nm B \<Longrightarrow>
        (\<And>t'. open_steps (apply_batch b t') = open_steps t' @ [nm]) \<Longrightarrow> ?thesis"
      using run that by (rule later_step_batches)
    moreover have ?thesis
      if "bs = [B]" and "closes nm B"
        and "\<And>t'. open_steps (apply_batch b t') = open_steps t' @ [nm]" for nm B
      using that eff st' quiet
      by (intro orderly.stepping [of _ B nm]) (simp_all add: enqueue_def)
    ultimately show ?thesis .
  qed
qed

lemma orderly_effect_beside:
  assumes st: "status t \<noteq> editing" and one: "open_steps t = [''Regenerate Draft'']"
    and B: "closes ''Regenerate Draft'' B" "halts B"
  shows "orderly env (effect env r \<lparr>current = t, tasks = [[B]]\<rparr>)"
proof (cases "deps t = deps r \<or> runWorkflow env t = []")
  case True
  then have "effect env r \<lparr>current = t, tasks = [[B]]\<rparr> = \<lparr>current = t, tasks = [[B]]\<rparr>"
    by (auto simp: effect_unchanged effect_no_step)
  with st one B(1) show ?thesis
    by (intro orderly.stepping [of _ B "''Regenerate Draft''"]) simp_all
next
  case False
  then obtain b bs where run: "runWorkflow env t = b # bs" and changed: "deps t \<noteq> deps r"
    by (cases "runWorkflow env t") auto
  have eff: "effect env r \<lparr>current = t, tasks = [[B]]\<rparr>
      = \<lparr>current = apply_batch b t, tasks = enqueue bs [[B]]\<rparr>"
    using changed st run by (simp add: effect_once)
  have st': "status (apply_batch b t) \<noteq> editing"
    using first_batch_deps [OF run st] st by (simp add: deps_def)
  have "\<not> step1_pre t"
    using one by (auto simp: step1_pre_def open_steps_empty_log)
  with st have ?thesis if "\<And>nm B'. bs = [B'] \<Longrightarrow> closes nm B' \<Longrightarrow>
      nm \<noteq> ''Regenerate Draft'' \<Longrightarrow>
      (\<And>t'. open_steps (apply_batch b t') = open_steps t' @ [nm]) \<Longrightarrow> ?thesis"
    using run that by (rule later_step_batches)
  moreover have ?thesis
    if "bs = [B']" and "closes nm B'" and "nm \<noteq> ''Regenerate Draft''"
      and "\<And>t'. open_steps (apply_batch b t') = open_steps t' @ [nm]" for nm B'
    using that eff st' one B
    by (intro orderly.redrafting [of _ B B' nm]) (simp_all add: enqueue_def)
  ultimately show ?thesis .
qed

lemma config_eq: "tasks c = ts \<Longrightarrow> c\<lparr>current := s\<rparr> = \<lparr>current = s, tasks = ts\<rparr>"
  by (cases c) simp

lemma orderly_user_event:
  assumes rest: "tasks c = []" and st: "status (current c) \<noteq> editing"
    and quiet: "open_steps (current c) = []
       \<or> (open_steps (current c) = [''Start Workflow''] \<and> status (current c) = agent_error)"
    and ok: "admissible c ev" and user: "\<forall>i. ev \<noteq> Resume i"
  shows "orderly env (dispatch env c ev)"
proof (cases ev)
  case (PatientSelect ident)
  have "orderly env (effect env (current c)
      \<lparr>current = handlePatientSelect ident (current c), tasks = []\<rparr>)"
    by (rule orderly_effect_idle)
      (simp_all add: handlePatientSelect_def INITIAL_STATE_def open_steps_def)
  with PatientSelect rest show ?thesis
    by (simp add: commit_def config_eq)
next
  case Reset
  have "orderly env (effect env (current c) \<lparr>current = handleReset (current c), tasks = []\<rparr>)"
    by (rule orderly_effect_idle) (simp_all add: handleReset_def INITIAL_STATE_def open_steps_def)
  with Reset rest show ?thesis
    by (simp add: commit_def config_eq)
next
  case Generate
  show ?thesis
  proof (cases "falsy_id (patientId (current c))")
    case True
    then have "dispatch env c Generate = c"
      by (simp add: commit_def handleGenerate_def effect_unchanged)
    with Generate rest st quiet show ?thesis
      by (simp add: orderly.resting)
  next
    case False
    have "orderly env (effect env (current c)
        \<lparr>current = handleGenerate (current c), tasks = []\<rparr>)"
      using False
      by (intro orderly_effect_idle)
        (simp_all add: handleGenerate_def INITIAL_STATE_def open_steps_def)
    with Generate rest show ?thesis
      by (simp add: commit_def config_eq)
  qed
next
  case Approve
  with ok quiet have "open_steps (current c) = []"
    by auto
  then have "orderly env (effect env (current c)
      \<lparr>current = handleApprove (current c), tasks = []\<rparr>)"
    by (intro orderly_effect_idle) (simp_all add: handleApprove_def)
  with Approve rest show ?thesis
    by (simp add: commit_def config_eq)
next
  case (RequestEdits req)
  define E where "E = handleRequestEdits req (current c)"
  from RequestEdits ok quiet have waiting: "status (current c) = awaiting_approval"
    and none: "open_steps (current c) = []"
    by auto
  have E: "status E = editing" "open_steps E = []"
    using none by (simp_all add: E_def) (simp add: handleRequestEdits_def)
  then have changed: "deps E \<noteq> deps (current c)"
    using waiting by (auto simp: deps_def)
  have "orderly env (effect env (current c) \<lparr>current = E, tasks = []\<rparr>)"
  proof (rule editing_batches [OF E(1), of env])
    fix b B
    assume run: "runWorkflow env E = [b, B]" and B: "closes ''Regenerate Draft'' B" "halts B"
      and opened: "\<And>t'. open_steps (apply_batch b t') = open_steps t' @ [''Regenerate Draft'']"
      and running: "\<And>t'. status (apply_batch b t') = running"
    have "effect env (current c) \<lparr>current = E, tasks = []\<rparr>
        = effect env E \<lparr>current = apply_batch b E, tasks = [[B]]\<rparr>"
      using changed run by (simp add: effect_spawn enqueue_def)
    moreover have "orderly env (effect env E \<lparr>current = apply_batch b E, tasks = [[B]]\<rparr>)"
      using B by (intro orderly_effect_beside) (simp_all add: opened running E)
    ultimately show ?thesis by simp
  qed
  with RequestEdits rest show ?thesis
    by (simp add: commit_def config_eq E_def)
next
  case (Resume i)
  with user show ?thesis by simp
qed

lemma orderly_dispatch:
  assumes "orderly env c" and "admissible c ev"
  shows "orderly env (dispatch env c ev)"
  using assms(1)
proof (cases rule: orderly.cases)
  case resting
  show ?thesis
  proof (cases "\<exists>i. ev = Resume i")
    case True
    with resting(1) have "dispatch env c ev = c" by auto
    with assms(1) show ?thesis by simp
  next
    case False
    with resting assms(2) show ?thesis
      by (intro orderly_user_event) simp_all
  qed
next
  case (starting x)
  from starting(1) assms(2) obtain i where ev: "ev = Resume i"
    by (cases ev) simp_all
  show ?thesis
  proof (cases i)
    case 0
    have "dispatch env c ev = effect env (current c)
        \<lparr>current = apply_batch (step1 env x ! Suc 0) (current c), tasks = [drop 2 (step1 env x)]\<rparr>"
      using starting(1) ev 0 by (simp add: step1_rest)
    also have "\<dots> = \<lparr>current = apply_batch (step1 env x ! Suc 0) (current c),
        tasks = [drop 2 (step1 env x)]\<rparr>"
      by (rule effect_unchanged) simp
    finally show ?thesis
      using starting(2,3) by (intro orderly.retrieving [of _ env x]) simp_all
  next
    case (Suc k)
    with starting(1) ev have "dispatch env c ev = c" by simp
    with assms(1) show ?thesis by simp
  qed
next
  case (retrieving x)
  from retrieving(1) assms(2) obtain i where ev: "ev = Resume i"
    by (cases ev) simp_all
  show ?thesis
  proof (cases i)
    case 0
    define t where "t = apply_batch (step1 env x ! 2) (current c)"
    have step: "dispatch env c ev = effect env (current c) \<lparr>current = t, tasks = []\<rparr>"
      using retrieving(1) ev 0 by (simp add: step1_rest t_def)
    from step1_third [of env x] show ?thesis
    proof
      assume "\<forall>t. open_steps (apply_batch (step1 env x ! 2) t)
          = filter (\<lambda>x. x \<noteq> ''Retrieve Patient Data'')
              (filter (\<lambda>x. x \<noteq> ''Start Workflow'') (open_steps t))
        \<and> status (apply_batch (step1 env x ! 2) t) = status t"
      with retrieving(2,3) have "status t \<noteq> editing" and "open_steps t = []"
        by (simp_all add: t_def)
      then show ?thesis
        unfolding step by (rule orderly_effect_idle)
    next
      assume "\<forall>t. open_steps (apply_batch (step1 env x ! 2) t)
          = filter (\<lambda>x. x \<noteq> ''Retrieve Patient Data'') (open_steps t)
        \<and> status (apply_batch (step1 env x ! 2) t) = agent_error"
      with retrieving(3) have failed: "status t = agent_error"
        and one: "open_steps t = [''Start Workflow'']"
        by (simp_all add: t_def)
      then have "effect env (current c) \<lparr>current = t, tasks = []\<rparr> = \<lparr>current = t, tasks = []\<rparr>"
        by (intro effect_waiting) simp_all
      with failed one show ?thesis
        unfolding step by (intro orderly.resting) simp_all
    qed
  next
    case (Suc k)
    with retrieving(1) ev have "dispatch env c ev = c" by simp
    with assms(1) show ?thesis by simp
  qed
next
  case (stepping B nm)
  from stepping(1) assms(2) obtain i where ev: "ev = Resume i"
    by (cases ev) simp_all
  show ?thesis
  proof (cases i)
    case 0
    have step: "dispatch env c ev
        = effect env (current c) \<lparr>current = apply_batch B (current c), tasks = []\<rparr>"
      using stepping(1) ev 0 by simp
    have "status (apply_batch B (current c)) \<noteq> editing"
      and "open_steps (apply_batch B (current c)) = []"
      using stepping(2,3,4) by (simp_all add: closes_def)
    then show ?thesis
      unfolding step by (rule orderly_effect_idle)
  next
    case (Suc k)
    with stepping(1) ev have "dispatch env c ev = c" by simp
    with assms(1) show ?thesis by simp
  qed
next
  case (redrafting B B' nm)
  from redrafting(1) assms(2) obtain i where ev: "ev = Resume i"
    by (cases ev) simp_all
  consider (draft) "i = 0" | (other) "i = 1" | (none) "2 \<le> i"
    by linarith
  then show ?thesis
  proof cases
    case draft
    define t where "t = apply_batch B (current c)"
    have step: "dispatch env c ev = effect env (current c) \<lparr>current = t, tasks = [[B']]\<rparr>"
      using redrafting(1) ev draft by (simp add: t_def)
    have halted: "status t \<noteq> running" "status t \<noteq> editing"
      using redrafting(3) by (simp_all add: halts_def t_def)
    then have "effect env (current c) \<lparr>current = t, tasks = [[B']]\<rparr>
        = \<lparr>current = t, tasks = [[B']]\<rparr>"
      by (intro effect_waiting) simp_all
    moreover have "open_steps t = [nm]"
      using redrafting(2,5,7) by (simp add: closes_def t_def)
    ultimately show ?thesis
      unfolding step using redrafting(4) halted
      by (intro orderly.stepping [of _ B' nm]) simp_all
  next
    case other
    define t where "t = apply_batch B' (current c)"
    have step: "dispatch env c ev = effect env (current c) \<lparr>current = t, tasks = [[B]]\<rparr>"
      using redrafting(1) ev other by (simp add: t_def)
    have "status t \<noteq> editing" and "open_steps t = [''Regenerate Draft'']"
      using redrafting(4,5,6,7) by (simp_all add: closes_def t_def)
    then show ?thesis
      unfolding step using redrafting(2,3) by (rule orderly_effect_beside)
  next
    case none
    with redrafting(1) ev have "dispatch env c ev = c" by simp
    with assms(1) show ?thesis by simp
  qed
qed

lemma orderly_run:
  "orderly env c \<Longrightarrow> attended env c evs \<Longrightarrow> orderly env (run env c evs)"
  by (induction evs arbitrary: c)
    (simp_all add: run_Nil run_Cons orderly_dispatch del: dispatch.simps)

lemma orderly_mounted: "orderly env mounted"
  by (rule orderly.resting) (simp_all add: mounted_def INITIAL_STATE_def open_steps_def)

lemma orderly_bound:
  assumes "orderly env c"
  shows "in_progress_count (current c) \<le> 2"
    and "tasks c = [] \<Longrightarrow> in_progress_count (current c) \<le> 1"
  using assms by (auto simp: in_progress_count_open elim!: orderly.cases)

section \<open>Claims\<close>


text \<open>
  C2 (as amended). In every state of an attended run at most two audit entries are in
  progress, and at most one whenever no task is pending (a failed retrieval leaves
  \<open>Start Workflow\<close> in progress for good).
\<close>

theorem C2_at_most_two_in_progress:
  assumes "attended env mounted evs"
  shows "in_progress_count (current (run env mounted evs)) \<le> 2
    \<and> (tasks (run env mounted evs) = [] \<longrightarrow> in_progress_count (current (run env mounted evs)) \<le> 1)"
  using orderly_bound [OF orderly_run [OF orderly_mounted assms]] by simp

theorem C2_at_most_two_in_progress_witness:
  "attended example_env mounted [PatientSelect ''P1'', Generate, Resume 0]
   \<and> in_progress_count (current (run example_env mounted
         [PatientSelect ''P1'', Generate, Resume 0])) \<le> 2"
proof -
  have "tasks (dispatch example_env mounted (PatientSelect ''P1'')) = []"
    by (simp add: commit_def handlePatientSelect_def effect_waiting INITIAL_STATE_def
        mounted_def)
  then have "attended example_env mounted [PatientSelect ''P1'', Generate, Resume 0]"
    by (simp add: mounted_def del: dispatch.simps)
  with C2_at_most_two_in_progress [of example_env "[PatientSelect ''P1'', Generate, Resume 0]"]
  show ?thesis by simp
qed

text \<open>
  C2 as stated fails. While step 1 waits for the gateway's answer, the entries
  \<open>Start Workflow\<close> and \<open>Retrieve Patient Data\<close> are both in progress.
\<close>

theorem C2_two_entries_in_progress:
  "map step (auditLog (current (run example_env mounted
      [PatientSelect ''P1'', Generate, Resume 0])))
     = [''Start Workflow'', ''Retrieve Patient Data'']
   \<and> map entry_status (auditLog (current (run example_env mounted
      [PatientSelect ''P1'', Generate, Resume 0])))
     = [in_progress, in_progress]
   \<and> in_progress_count (current (run example_env mounted
      [PatientSelect ''P1'', Generate, Resume 0])) = 2"
  by code_simp

text \<open>
  C3. The claim does not hold on the code. In its editing branch step 3 sets the status
  to running before it awaits the draft, while \<open>draftSummary\<close> still holds \<open>D1\<close>: the
  effect runs again and step 4 starts a finalisation beside the regeneration. From the
  state \<open>reviewing\<close> (status \<open>awaiting_approval\<close>, draft \<open>D1\<close>, nothing pending), after
  \<^verbatim>\<open>requestEdits("add allergy info")\<close> the draft collaborator returns \<open>D2\<close> and the
  status is \<open>awaiting_approval\<close> with one task still pending; when that task resumes the
  machine comes to rest with status \<open>finished\<close> and final summary \<open>D2\<close>, although
  nothing was approved. The same happens in the run from the first render.
\<close>

theorem C3_regenerated_draft_finalised_unapproved:
  "status reviewing = awaiting_approval \<and> draftSummary reviewing = ''D1''
   \<and> generateDraftSummary example_env (synthesizedNotes reviewing) (patientData reviewing)
        ''add allergy info'' = Inr ''D2''
   \<and> status (current (run example_env \<lparr>current = reviewing, tasks = []\<rparr>
        [RequestEdits ''add allergy info'', Resume 0])) = awaiting_approval
   \<and> draftSummary (current (run example_env \<lparr>current = reviewing, tasks = []\<rparr>
        [RequestEdits ''add allergy info'', Resume 0])) = ''D2''
   \<and> length (tasks (run example_env \<lparr>current = reviewing, tasks = []\<rparr>
        [RequestEdits ''add allergy info'', Resume 0])) = 1
   \<and> tasks (run example_env \<lparr>current = reviewing, tasks = []\<rparr>
        [RequestEdits ''add allergy info'', Resume 0, Resume 0]) = []
   \<and> status (current (run example_env \<lparr>current = reviewing, tasks = []\<rparr>
        [RequestEdits ''add allergy info'', Resume 0, Resume 0])) = finished
   \<and> finalSummary (current (run example_env \<lparr>current = reviewing, tasks = []\<rparr>
        [RequestEdits ''add allergy info'', Resume 0, Resume 0])) = ''D2''
   \<and> map step (auditLog (current (run example_env \<lparr>current = reviewing, tasks = []\<rparr>
        [RequestEdits ''add allergy info'', Resume 0, Resume 0])))
     = [''Human Review'', ''Regenerate Draft'', ''Finalize Summary'', ''Human Review'',
        ''Workflow Complete'']
   \<and> map entry_status (auditLog (current (run example_env \<lparr>current = reviewing, tasks = []\<rparr>
        [RequestEdits ''add allergy info'', Resume 0, Resume 0])))
     = [completed, completed, completed, human_input, completed]
   \<and> tasks (run example_env mounted first_review) = []
   \<and> status (current (run example_env mounted first_review)) = awaiting_approval
   \<and> draftSummary (current (run example_env mounted first_review)) = ''D1''
   \<and> tasks (run example_env mounted
        (first_review @ [RequestEdits ''add allergy info'', Resume 0, Resume 0])) = []
   \<and> status (current (run example_env mounted
        (first_review @ [RequestEdits ''add allergy info'', Resume 0, Resume 0]))) = finished
   \<and> finalSummary (current (run example_env mounted
        (first_review @ [RequestEdits ''add allergy info'', Resume 0, Resume 0]))) = ''D2''"
proof -
  have "length (tasks (run example_env \<lparr>current = reviewing, tasks = []\<rparr>
        [RequestEdits ''add allergy info'', Resume 0, Resume 0])) = 0"
    and "length (tasks (run example_env mounted first_review)) = 0"
    and "length (tasks (run example_env mounted
        (first_review @ [RequestEdits ''add allergy info'', Resume 0, Resume 0]))) = 0"
    by code_simp+
  then have idle: "tasks (run example_env \<lparr>current = reviewing, tasks = []\<rparr>
        [RequestEdits ''add allergy info'', Resume 0, Resume 0]) = []"
    "tasks (run example_env mounted first_review) = []"
    "tasks (run example_env mounted
        (first_review @ [RequestEdits ''add allergy info'', Resume 0, Resume 0])) = []"
    by simp_all
  have given: "status reviewing = awaiting_approval" "draftSummary reviewing = ''D1''"
    "generateDraftSummary example_env (synthesizedNotes reviewing) (patientData reviewing)
        ''add allergy info'' = Inr ''D2''"
    by (simp_all add: reviewing_def example_env_def INITIAL_STATE_def)
  have runs: "status (current (run example_env \<lparr>current = reviewing, tasks = []\<rparr>
        [RequestEdits ''add allergy info'', Resume 0])) = awaiting_approval"
    "draftSummary (current (run example_env \<lparr>current = reviewing, tasks = []\<rparr>
        [RequestEdits ''add allergy info'', Resume 0])) = ''D2''"
    "length (tasks (run example_env \<lparr>current = reviewing, tasks = []\<rparr>
        [RequestEdits ''add allergy info'', Resume 0])) = 1"
    "status (current (run example_env \<lparr>current = reviewing, tasks = []\<rparr>
        [RequestEdits ''add allergy info'', Resume 0, Resume 0])) = finished"
    "finalSummary (current (run example_env \<lparr>current = reviewing, tasks = []\<rparr>
        [RequestEdits ''add allergy info'', Resume 0, Resume 0])) = ''D2''"
    "map step (auditLog (current (run example_env \<lparr>current = reviewing, tasks = []\<rparr>
        [RequestEdits ''add allergy info'', Resume 0, Resume 0])))
     = [''Human Review'', ''Regenerate Draft'', ''Finalize Summary'', ''Human Review'',
        ''Workflow Complete'']"
    "map entry_status (auditLog (current (run example_env \<lparr>current = reviewing, tasks = []\<rparr>
        [RequestEdits ''add allergy info'', Resume 0, Resume 0])))
     = [completed, completed, completed, human_input, completed]"
    "status (current (run example_env mounted first_review)) = awaiting_approval"
    "draftSummary (current (run example_env mounted first_review)) = ''D1''"
    "status (current (run example_env mounted
        (first_review @ [RequestEdits ''add allergy info'', Resume 0, Resume 0]))) = finished"
    "finalSummary (current (run example_env mounted
        (first_review @ [RequestEdits ''add allergy info'', Resume 0, Resume 0]))) = ''D2''"
    by code_simp+
  from given idle runs show ?thesis
    by (intro conjI)
qed

text \<open>
  C4. When the patient id resolves to a record, the synthesis returns a non-empty text
  and the draft collaborator returns a non-empty text (the claim's "returns text", as
  the specification's sentence has it), and the clinician then approves, the run ends
  with status finished, \<open>finalSummary\<close> equal to \<open>draftSummary\<close>, and the audit log
  ending in a completed \<open>Workflow Complete\<close> entry. The step names of the log are then
  exactly \<^verbatim>\<open>ALL_WORKFLOW_STEPS\<close>.
\<close>

theorem C4_happy_path_finishes:
  assumes pid: "pid \<noteq> []" and found: "getPatientData env pid = Some p"
    and synth: "synthesizeClinicalData env p = Inr notes" and ne_notes: "notes \<noteq> []"
    and drafted: "generateDraftSummary env notes (Some p) [] = Inr draft" and ne_draft: "draft \<noteq> []"
    and idle: "tasks c = []"
  shows "status (current (run env c (happy_path pid))) = finished
   \<and> finalSummary (current (run env c (happy_path pid)))
       = draftSummary (current (run env c (happy_path pid)))
   \<and> draftSummary (current (run env c (happy_path pid))) = draft
   \<and> step (last (auditLog (current (run env c (happy_path pid))))) = ''Workflow Complete''
   \<and> entry_status (last (auditLog (current (run env c (happy_path pid))))) = completed
   \<and> map step (auditLog (current (run env c (happy_path pid)))) = ALL_WORKFLOW_STEPS
   \<and> tasks (run env c (happy_path pid)) = []"
proof -
  define G where "G = INITIAL_STATE\<lparr>patientId := Some pid, status := running\<rparr>"
  define P1 where "P1 = pass env G"
  define P2 where "P2 = pass env P1"
  define P3 where "P3 = pass env P2"
  define A where "A = handleApprove P3"
  define P4 where "P4 = pass env A"
  have G: "step1_pre G" "patientId G = Some pid" "status G = running"
    using pid by (simp_all add: G_def step1_pre_def falsy_id_def INITIAL_STATE_def)
  have rwG: "runWorkflow env G = step1 env pid"
    using G by (simp add: runWorkflow_def)
  have P1: "P1 = G\<lparr>auditLog :=
      [\<lparr>step = ''Start Workflow'', entry_status = completed,
         details = ''Initiating summary generation for patient: '' @ pid,
         timestamp = toLocaleTimeString env 0\<rparr>,
       \<lparr>step = ''Retrieve Patient Data'', entry_status = completed,
         details = ''Successfully fetched data for '' @ name (demographics p) @ ''.'',
         timestamp = toLocaleTimeString env 1\<rparr>],
      patientData := Some p\<rparr>"
    unfolding P1_def using G(1,2) found by (rule pass_retrieve_found)
  have P1f: "\<not> step1_pre P1" "step2_pre P1" "patientData P1 = Some p" "status P1 = running"
    "deps P1 \<noteq> deps G" "synthesizedNotes P1 = []" "draftSummary P1 = []" "finalSummary P1 = []"
    "editRequest P1 = []" "auditLog P1 \<noteq> []"
    "map step (auditLog P1) = [''Start Workflow'', ''Retrieve Patient Data'']"
    by (simp_all add: P1 G_def step1_pre_def step2_pre_def deps_def INITIAL_STATE_def)
  have rw1: "runWorkflow env P1 = step2 env p"
    using P1f(1-3) by (simp add: runWorkflow_def)
  have P2: "P2 = (updateAuditLogStatus ''Synthesize Clinical Notes'' completed
        (Some ''Synthesis complete.'')
        (addAuditLog env ''Synthesize Clinical Notes''
           ''Using Gemini to synthesize patient data.'' in_progress P1))
      \<lparr>synthesizedNotes := notes\<rparr>"
    unfolding P2_def using P1f(1-3) synth by (rule pass_synthesize_ok)
  have P2f: "\<not> step1_pre P2" "\<not> step2_pre P2" "step3_pre P2" "status P2 = running"
    "deps P2 \<noteq> deps P1" "synthesizedNotes P2 = notes" "patientData P2 = Some p"
    "editRequest P2 = []" "draftSummary P2 = []" "finalSummary P2 = []" "auditLog P2 \<noteq> []"
    "map step (auditLog P2) =
       [''Start Workflow'', ''Retrieve Patient Data'', ''Synthesize Clinical Notes'']"
    using ne_notes P1f
    by (simp_all add: P2 step1_pre_def step2_pre_def step3_pre_def deps_def)
  have rw2: "runWorkflow env P2 = step3 env P2"
    using P2f(1-3) by (simp add: runWorkflow_def)
  have P3: "P3 = (addAuditLog env ''Human Review'' ''Waiting for clinician approval.'' human_input
        (updateAuditLogStatus ''Generate Draft Summary'' completed
           (Some ''Draft generated. Awaiting human review.'')
           (addAuditLog env ''Generate Draft Summary''
              ''Using Gemini to create draft summary.'' in_progress P2)))
     \<lparr>draftSummary := draft, status := awaiting_approval, editRequest := []\<rparr>"
    unfolding P3_def using P2f drafted by (intro pass_draft_ok) simp_all
  have P3f: "status P3 = awaiting_approval" "synthesizedNotes P3 = notes"
    "draftSummary P3 = draft" "finalSummary P3 = []" "auditLog P3 \<noteq> []"
    "map step (auditLog P3) =
       [''Start Workflow'', ''Retrieve Patient Data'', ''Synthesize Clinical Notes'',
        ''Generate Draft Summary'', ''Human Review'']"
    using P2f by (simp_all add: P3)
  have A: "A = (updateAuditLogStatus ''Human Review'' completed
        (Some ''Clinician approved the draft summary.'') P3)\<lparr>status := running\<rparr>"
    by (simp add: A_def handleApprove_def)
  have Af: "\<not> step1_pre A" "\<not> step2_pre A" "\<not> step3_pre A" "step4_pre A" "status A = running"
    "deps A \<noteq> deps P3" "draftSummary A = draft"
    "map step (auditLog A) =
       [''Start Workflow'', ''Retrieve Patient Data'', ''Synthesize Clinical Notes'',
        ''Generate Draft Summary'', ''Human Review'']"
    using ne_notes ne_draft P3f
    by (simp_all add: A step1_pre_def step2_pre_def step3_pre_def step4_pre_def deps_def)
  have rwA: "runWorkflow env A = step4 env"
    using Af(1-4) by (simp add: runWorkflow_def)
  have P4: "P4 = (addAuditLog env ''Workflow Complete'' ''Process finished successfully.'' completed
        (updateAuditLogStatus ''Finalize Summary'' completed
           (Some ''Discharge summary is complete.'')
           (addAuditLog env ''Finalize Summary'' ''Finalizing the document.'' in_progress A)))
     \<lparr>finalSummary := draftSummary A, status := finished\<rparr>"
    unfolding P4_def using Af(1-4) by (rule pass_finalize)
  have "run env c (happy_path pid)
      = run env (run env (run env (run env (run env (run env c [PatientSelect pid, Generate])
          [Resume 0, Resume 0]) [Resume 0]) [Resume 0]) [Approve]) [Resume 0]"
    by (simp add: happy_path_def run_def)
  also have "run env c [PatientSelect pid, Generate]
      = effect env (INITIAL_STATE\<lparr>patientId := Some pid\<rparr>) \<lparr>current = G, tasks = []\<rparr>"
    by (simp only: start_run [OF pid idle] G_def)
  also have "run env \<dots> [Resume 0, Resume 0] = effect env G \<lparr>current = P1, tasks = []\<rparr>"
  proof -
    have "deps G \<noteq> deps (INITIAL_STATE\<lparr>patientId := Some pid\<rparr>)"
      by (simp add: G_def deps_def INITIAL_STATE_def)
    then show ?thesis
      unfolding P1_def using G(3) by (rule effect_solo_step) (simp_all add: rwG step1_def)
  qed
  also have "run env \<dots> [Resume 0] = effect env P1 \<lparr>current = P2, tasks = []\<rparr>"
    unfolding P2_def using P1f(5,4) by (rule effect_solo_step) (simp_all add: rw1 step2_def)
  also have "run env \<dots> [Resume 0] = effect env P2 \<lparr>current = P3, tasks = []\<rparr>"
    unfolding P3_def using P2f(5,4)
    by (rule effect_solo_step) (simp_all add: rw2 step3_def Let_def)
  also have "effect env P2 \<lparr>current = P3, tasks = []\<rparr> = \<lparr>current = P3, tasks = []\<rparr>"
    by (rule effect_waiting) (simp_all add: P3)
  also have "run env \<dots> [Approve] = effect env P3 \<lparr>current = A, tasks = []\<rparr>"
    by (simp add: run_def commit_def A_def)
  also have "run env \<dots> [Resume 0] = effect env A \<lparr>current = P4, tasks = []\<rparr>"
    unfolding P4_def using Af(6,5) by (rule effect_solo_step) (simp_all add: rwA step4_def)
  also have "effect env A \<lparr>current = P4, tasks = []\<rparr> = \<lparr>current = P4, tasks = []\<rparr>"
    by (rule effect_waiting) (simp_all add: P4)
  finally have final: "run env c (happy_path pid) = \<lparr>current = P4, tasks = []\<rparr>" .
  have "map step (auditLog P4) = ALL_WORKFLOW_STEPS"
    using Af(8) by (simp add: P4 ALL_WORKFLOW_STEPS_def)
  moreover have "status P4 = finished" "finalSummary P4 = draft" "draftSummary P4 = draft"
    "step (last (auditLog P4)) = ''Workflow Complete''"
    "entry_status (last (auditLog P4)) = completed"
    by (simp_all add: P4 Af(7))
  ultimately show ?thesis
    unfolding final by simp
qed

theorem C4_happy_path_finishes_witness:
  "status (current (run example_env mounted (happy_path ''P1''))) = finished
   \<and> finalSummary (current (run example_env mounted (happy_path ''P1''))) = ''D1''
   \<and> draftSummary (current (run example_env mounted (happy_path ''P1''))) = ''D1''
   \<and> step (last (auditLog (current (run example_env mounted (happy_path ''P1'')))))
       = ''Workflow Complete''
   \<and> entry_status (last (auditLog (current (run example_env mounted (happy_path ''P1'')))))
       = completed"
proof -
  have "''P1'' \<noteq> []" and "getPatientData example_env ''P1'' = Some example_patient"
    and "synthesizeClinicalData example_env example_patient = Inr ''N1''" and "''N1'' \<noteq> []"
    and "generateDraftSummary example_env ''N1'' (Some example_patient) [] = Inr ''D1''"
    and "''D1'' \<noteq> []" and "tasks mounted = []"
    by (simp_all add: example_env_def mounted_def)
  from C4_happy_path_finishes [OF this] show ?thesis
    by simp
qed

text \<open>
  C5. A workflow started for a patient id \<open>x\<close> that the gateway does not resolve ends,
  after the two resumptions of step 1, with status error, the error field
  \<open>Patient ID x not found.\<close>, and the \<open>Retrieve Patient Data\<close> entry in status error
  with that message as its details. (\<open>Start Workflow\<close> stays in progress.) No task is
  left pending.
\<close>

theorem C5_unknown_patient_fails:
  assumes nf: "getPatientData env x = None" and x: "x \<noteq> []" and t: "tasks c = []"
  shows "run env c [PatientSelect x, Generate, Resume 0, Resume 0] =
     \<lparr>current = \<lparr>patientId = Some x, patientData = None, synthesizedNotes = [],
         draftSummary = [], finalSummary = [],
         auditLog = [\<lparr>step = ''Start Workflow'', entry_status = in_progress,
             details = ''Initiating summary generation for patient: '' @ x,
             timestamp = toLocaleTimeString env 0\<rparr>,
           \<lparr>step = ''Retrieve Patient Data'', entry_status = log_error,
             details = ''Patient ID '' @ x @ '' not found.'',
             timestamp = toLocaleTimeString env 1\<rparr>],
         status = agent_error, error = Some (''Patient ID '' @ x @ '' not found.''),
         editRequest = []\<rparr>, tasks = []\<rparr>"
proof -
  define G where "G = INITIAL_STATE\<lparr>patientId := Some x, status := running\<rparr>"
  have pre: "step1_pre G" and pid: "patientId G = Some x"
    using x by (simp_all add: G_def step1_pre_def falsy_id_def INITIAL_STATE_def)
  have rw: "runWorkflow env G = step1 env x"
    using pre pid by (simp add: runWorkflow_def)
  obtain b1 b2 b3 where shape: "step1 env x = [b1, b2, b3]"
    and quiet: "\<And>t. deps (apply_batch b1 t) = deps t" "\<And>t. deps (apply_batch b2 t) = deps t"
    using step1_shape [of env x] by blast
  have final: "pass env G = G\<lparr>auditLog :=
      [\<lparr>step = ''Start Workflow'', entry_status = in_progress,
         details = ''Initiating summary generation for patient: '' @ x,
         timestamp = toLocaleTimeString env 0\<rparr>,
       \<lparr>step = ''Retrieve Patient Data'', entry_status = log_error,
         details = errorMsg x, timestamp = toLocaleTimeString env 1\<rparr>],
      status := agent_error, error := Some (errorMsg x)\<rparr>"
    using pre pid nf by (rule pass_retrieve_missing)
  have "run env c [PatientSelect x, Generate, Resume 0, Resume 0]
      = run env (run env c [PatientSelect x, Generate]) [Resume 0, Resume 0]"
    by (simp add: run_def)
  also have "\<dots> = run env
      (effect env (INITIAL_STATE\<lparr>patientId := Some x\<rparr>) \<lparr>current = G, tasks = []\<rparr>)
      [Resume 0, Resume 0]"
    by (simp only: start_run [OF x t] G_def)
  also have "\<dots> = effect env G \<lparr>current = pass env G, tasks = []\<rparr>"
    using rw [unfolded shape] quiet
    by (rule solo_three) (simp_all add: G_def deps_def INITIAL_STATE_def)
  also have "\<dots> = \<lparr>current = pass env G, tasks = []\<rparr>"
    by (rule effect_waiting) (simp_all add: final)
  finally have "run env c [PatientSelect x, Generate, Resume 0, Resume 0]
      = \<lparr>current = pass env G, tasks = []\<rparr>" .
  then show ?thesis
    unfolding final by (simp add: G_def INITIAL_STATE_def errorMsg_def)
qed

theorem C5_unknown_patient_fails_witness:
  "getPatientData example_env ''X'' = None
   \<and> status (current (run example_env mounted [PatientSelect ''X'', Generate, Resume 0, Resume 0]))
       = agent_error
   \<and> error (current (run example_env mounted [PatientSelect ''X'', Generate, Resume 0, Resume 0]))
       = Some ''Patient ID X not found.''
   \<and> map entry_status
         (auditLog (current (run example_env mounted
            [PatientSelect ''X'', Generate, Resume 0, Resume 0])))
       = [in_progress, log_error]"
proof -
  have missing: "getPatientData example_env ''X'' = None"
    by (simp add: example_env_def)
  have named: "''X'' \<noteq> []" and idle: "tasks mounted = []"
    by (simp_all add: mounted_def)
  show ?thesis
    unfolding C5_unknown_patient_fails [OF missing named idle] using missing by simp
qed

text \<open>
  C6 (as amended). A pass in a state where no step's precondition holds changes nothing,
  and a pass in a state where one holds appends at least one audit entry. A pass that
  runs a step leaves a state in which that step's own precondition is false: always for
  steps 1, 3 and 4 (also when the step fails), and for step 2 when the synthesis does
  not return the empty text. A second pass with nothing in between therefore never
  repeats the step just run. It changes nothing after a pass that ran step 3 or step 4,
  or whose step 1 or step 2 failed. After a pass in which step 1 found the patient
  (no notes yet) it runs step 2 and appends the \<open>Synthesize Clinical Notes\<close> entry;
  after a pass in which step 2 returned a non-empty text (no draft yet) it runs step 3
  and appends the \<open>Generate Draft Summary\<close> entry. This is how the workflow advances.
\<close>

theorem C6_second_pass_runs_next_step:
  "(\<not> step1_pre s \<and> \<not> step2_pre s \<and> \<not> step3_pre s \<and> \<not> step4_pre s \<longrightarrow> pass env s = s)
   \<and> (step1_pre s \<or> step2_pre s \<or> step3_pre s \<or> step4_pre s \<longrightarrow>
        length (auditLog s) < length (auditLog (pass env s)))
   \<and> (step1_pre s \<longrightarrow> \<not> step1_pre (pass env s))
   \<and> (\<not> step1_pre s \<and> step2_pre s
        \<and> (\<forall>p. patientData s = Some p \<longrightarrow> synthesizeClinicalData env p \<noteq> Inr [])
        \<longrightarrow> \<not> step2_pre (pass env s))
   \<and> (\<not> step1_pre s \<and> \<not> step2_pre s \<and> step3_pre s \<longrightarrow>
        \<not> step3_pre (pass env s) \<and> pass env (pass env s) = pass env s)
   \<and> (\<not> step1_pre s \<and> \<not> step2_pre s \<and> \<not> step3_pre s \<and> step4_pre s \<longrightarrow>
        \<not> step4_pre (pass env s) \<and> pass env (pass env s) = pass env s)
   \<and> (step1_pre s \<and> patientId s = Some x \<and> getPatientData env x = None \<longrightarrow>
        pass env (pass env s) = pass env s)
   \<and> (\<not> step1_pre s \<and> step2_pre s \<and> patientData s = Some p
        \<and> synthesizeClinicalData env p = Inl msg \<longrightarrow>
        pass env (pass env s) = pass env s)
   \<and> (step1_pre s \<and> patientId s = Some x \<and> getPatientData env x = Some p
        \<and> synthesizedNotes s = [] \<longrightarrow>
        step2_pre (pass env s)
        \<and> map step (auditLog (pass env (pass env s)))
            = map step (auditLog (pass env s)) @ [''Synthesize Clinical Notes''])
   \<and> (\<not> step1_pre s \<and> step2_pre s \<and> patientData s = Some p
        \<and> synthesizeClinicalData env p = Inr notes \<and> notes \<noteq> [] \<and> draftSummary s = [] \<longrightarrow>
        \<not> step1_pre (pass env s) \<and> step3_pre (pass env s)
        \<and> take (Suc (length (auditLog (pass env s))))
              (map step (auditLog (pass env (pass env s))))
            = map step (auditLog (pass env s)) @ [''Generate Draft Summary''])"
proof (intro conjI impI; (elim conjE)?)
  assume "\<not> step1_pre s" "\<not> step2_pre s" "\<not> step3_pre s" "\<not> step4_pre s"
  then show "pass env s = s" by (rule pass_no_step)
next
  assume "step1_pre s \<or> step2_pre s \<or> step3_pre s \<or> step4_pre s"
  then show "length (auditLog s) < length (auditLog (pass env s))" by (rule pass_appends)
next
  assume "step1_pre s"
  then have "auditLog (pass env s) \<noteq> []" by (rule pass_step1_log)
  then show "\<not> step1_pre (pass env s)" by (simp add: step1_pre_def)
next
  assume a: "\<not> step1_pre s" "step2_pre s"
    "\<forall>p. patientData s = Some p \<longrightarrow> synthesizeClinicalData env p \<noteq> Inr []"
  then obtain p where p: "patientData s = Some p"
    by (auto simp: step2_pre_def)
  from a p pass_step2_result [of s p env] show "\<not> step2_pre (pass env s)"
    by (cases "synthesizeClinicalData env p") (auto simp: step2_pre_def)
next
  assume a: "\<not> step1_pre s" "\<not> step2_pre s" "step3_pre s"
  then have "status (pass env s) = awaiting_approval \<or> status (pass env s) = agent_error"
    by (rule pass_step3_status)
  then show "\<not> step3_pre (pass env s)" by (auto simp: step3_pre_def)
  from a show "pass env (pass env s) = pass env s" by (rule pass_step3_again)
next
  assume a: "\<not> step1_pre s" "\<not> step2_pre s" "\<not> step3_pre s" "step4_pre s"
  then have "status (pass env s) = finished" by (rule pass_step4_status)
  then show "\<not> step4_pre (pass env s)" by (simp add: step4_pre_def)
  from a show "pass env (pass env s) = pass env s" by (rule pass_step4_again)
next
  assume "step1_pre s" "patientId s = Some x" "getPatientData env x = None"
  then show "pass env (pass env s) = pass env s" by (rule pass_retrieve_missing_again)
next
  assume "\<not> step1_pre s" "step2_pre s" "patientData s = Some p"
    "synthesizeClinicalData env p = Inl msg"
  then show "pass env (pass env s) = pass env s" by (rule pass_synthesize_failed_again)
next
  assume a: "step1_pre s" "patientId s = Some x" "getPatientData env x = Some p"
    "synthesizedNotes s = []"
  then show "step2_pre (pass env s)" by (rule pass_found_then_synthesis)
  from a show "map step (auditLog (pass env (pass env s)))
            = map step (auditLog (pass env s)) @ [''Synthesize Clinical Notes'']"
    by (rule pass_found_then_synthesis)
next
  assume a: "\<not> step1_pre s" "step2_pre s" "patientData s = Some p"
    "synthesizeClinicalData env p = Inr notes" "notes \<noteq> []" "draftSummary s = []"
  then show "\<not> step1_pre (pass env s)" by (rule pass_notes_then_draft)
  from a show "step3_pre (pass env s)" by (rule pass_notes_then_draft)
  from a show "take (Suc (length (auditLog (pass env s))))
              (map step (auditLog (pass env (pass env s))))
            = map step (auditLog (pass env s)) @ [''Generate Draft Summary'']"
    by (rule pass_notes_then_draft)
qed

theorem C6_second_pass_runs_next_step_witness:
  "pass example_env INITIAL_STATE = INITIAL_STATE
   \<and> step1_pre (started ''P1'')
   \<and> \<not> step1_pre (pass example_env (started ''P1''))
   \<and> step2_pre (pass example_env (started ''P1''))
   \<and> length (auditLog (started ''P1'')) < length (auditLog (pass example_env (started ''P1'')))
   \<and> map step (auditLog (pass example_env (pass example_env (started ''P1''))))
       = [''Start Workflow'', ''Retrieve Patient Data'', ''Synthesize Clinical Notes'']
   \<and> step3_pre (pass example_env (pass example_env (started ''P1'')))
   \<and> step1_pre (started ''X'')
   \<and> pass example_env (pass example_env (started ''X'')) = pass example_env (started ''X'')"
proof -
  define P1 where "P1 = pass example_env (started ''P1'')"
  have none: "\<not> step1_pre INITIAL_STATE \<and> \<not> step2_pre INITIAL_STATE
      \<and> \<not> step3_pre INITIAL_STATE \<and> \<not> step4_pre INITIAL_STATE"
    by (simp add: step1_pre_def step2_pre_def step3_pre_def step4_pre_def INITIAL_STATE_def)
  have eligible: "step1_pre (started ''P1'')" "step1_pre (started ''X'')"
    by (simp_all add: step1_pre_started)
  have found: "patientId (started ''P1'') = Some ''P1''"
    "getPatientData example_env ''P1'' = Some example_patient"
    "synthesizedNotes (started ''P1'') = []"
    by (simp_all add: started_eq example_env_def INITIAL_STATE_def)
  have missing: "patientId (started ''X'') = Some ''X''" "getPatientData example_env ''X'' = None"
    by (simp_all add: started_eq example_env_def)
  have first: "map step (auditLog (pass example_env (started ''P1'')))
      = [''Start Workflow'', ''Retrieve Patient Data'']"
    by (simp add: pass_started_found)
  have second: "\<not> step1_pre P1" "step2_pre P1" "patientData P1 = Some example_patient"
    "synthesizeClinicalData example_env example_patient = Inr ''N1''" "''N1'' \<noteq> []"
    "draftSummary P1 = []"
    unfolding P1_def pass_started_found
    by (simp_all add: started_eq step1_pre_def step2_pre_def INITIAL_STATE_def example_env_def)
  from C6_second_pass_runs_next_step [of INITIAL_STATE example_env] none
  have "pass example_env INITIAL_STATE = INITIAL_STATE"
    by blast
  moreover from C6_second_pass_runs_next_step
    [of "started ''P1''" example_env "''P1''" example_patient] eligible(1) found
  have "\<not> step1_pre (pass example_env (started ''P1''))"
    and "step2_pre (pass example_env (started ''P1''))"
    and "length (auditLog (started ''P1'')) < length (auditLog (pass example_env (started ''P1'')))"
    and "map step (auditLog (pass example_env (pass example_env (started ''P1''))))
       = map step (auditLog (pass example_env (started ''P1''))) @ [''Synthesize Clinical Notes'']"
    by blast+
  moreover from C6_second_pass_runs_next_step
    [of P1 example_env _ example_patient _ "''N1''"] second
  have "step3_pre (pass example_env P1)"
    by blast
  moreover from C6_second_pass_runs_next_step
    [of "started ''X''" example_env "''X''"] eligible(2) missing
  have "pass example_env (pass example_env (started ''X'')) = pass example_env (started ''X'')"
    by blast
  ultimately show ?thesis
    using eligible first unfolding P1_def by simp
qed

text \<open>
  C6 as stated fails. (a) From the state after \<^verbatim>\<open>generate()\<close> the first pass runs step 1
  and a second pass, with nothing in between, runs step 2 and appends an entry. (b) When
  the synthesis returns the empty text, step 2 completes and its precondition still
  holds: the next pass runs step 2 again and appends a second
  \<open>Synthesize Clinical Notes\<close> entry.
\<close>

theorem C6_second_pass_appends:
  "map step (auditLog (pass example_env (started ''P1'')))
     = [''Start Workflow'', ''Retrieve Patient Data'']
   \<and> map step (auditLog (pass example_env (pass example_env (started ''P1''))))
     = [''Start Workflow'', ''Retrieve Patient Data'', ''Synthesize Clinical Notes'']
   \<and> map step (auditLog (pass silent_env (pass example_env (started ''P1''))))
     = [''Start Workflow'', ''Retrieve Patient Data'', ''Synthesize Clinical Notes'']
   \<and> map step (auditLog (pass silent_env (pass silent_env (pass example_env (started ''P1'')))))
     = [''Start Workflow'', ''Retrieve Patient Data'', ''Synthesize Clinical Notes'',
        ''Synthesize Clinical Notes'']"
proof -
  define P1 where "P1 = pass example_env (started ''P1'')"
  have P1f: "\<not> step1_pre P1" "step2_pre P1" "patientData P1 = Some example_patient"
    "map step (auditLog P1) = [''Start Workflow'', ''Retrieve Patient Data'']"
    unfolding P1_def pass_started_found
    by (simp_all add: started_eq step1_pre_def step2_pre_def INITIAL_STATE_def)
  have ok: "synthesizeClinicalData example_env example_patient = Inr ''N1''"
    and silent: "synthesizeClinicalData silent_env example_patient = Inr []"
    by (simp_all add: example_env_def silent_env_def)
  define Q where "Q = pass silent_env P1"
  have Q: "Q = (updateAuditLogStatus ''Synthesize Clinical Notes'' completed
        (Some ''Synthesis complete.'')
        (addAuditLog silent_env ''Synthesize Clinical Notes''
           ''Using Gemini to synthesize patient data.'' in_progress P1))
      \<lparr>synthesizedNotes := []\<rparr>"
    unfolding Q_def using P1f(1-3) silent by (rule pass_synthesize_ok)
  have Qf: "\<not> step1_pre Q" "step2_pre Q" "patientData Q = Some example_patient"
    "map step (auditLog Q)
       = [''Start Workflow'', ''Retrieve Patient Data'', ''Synthesize Clinical Notes'']"
    using P1f by (simp_all add: Q step1_pre_def step2_pre_def)
  have "map step (auditLog (pass example_env P1))
     = [''Start Workflow'', ''Retrieve Patient Data'', ''Synthesize Clinical Notes'']"
    using P1f(4) by (simp add: pass_synthesize_ok [OF P1f(1-3) ok])
  moreover have "map step (auditLog (pass silent_env Q))
     = [''Start Workflow'', ''Retrieve Patient Data'', ''Synthesize Clinical Notes'',
        ''Synthesize Clinical Notes'']"
    using Qf(4) by (simp add: pass_synthesize_ok [OF Qf(1-3) silent])
  ultimately show ?thesis
    using P1f(4) Qf(4) unfolding Q_def P1_def by simp
qed

text \<open>
  C7. \<^verbatim>\<open>reset()\<close> replaces the state by \<^verbatim>\<open>INITIAL_STATE\<close>, from every configuration
  (finished, failed, or with steps still pending): all text fields empty, no patient
  data, empty audit log, status idle, no error; \<open>patientId\<close> is cleared as well. The
  entry point itself cancels nothing: the pending tasks stay.
\<close>

theorem C7_reset_yields_initial_state:
  "handleReset s = INITIAL_STATE
   \<and> current (dispatch env c Reset) = INITIAL_STATE
   \<and> tasks (dispatch env c Reset) = tasks c
   \<and> patientId INITIAL_STATE = None \<and> patientData INITIAL_STATE = None
   \<and> synthesizedNotes INITIAL_STATE = [] \<and> draftSummary INITIAL_STATE = []
   \<and> finalSummary INITIAL_STATE = [] \<and> auditLog INITIAL_STATE = []
   \<and> status INITIAL_STATE = idle \<and> error INITIAL_STATE = None
   \<and> editRequest INITIAL_STATE = []"
proof -
  have "runWorkflow env INITIAL_STATE = []"
    by (rule runWorkflow_waiting) (simp_all add: INITIAL_STATE_def)
  then have "dispatch env c Reset = c\<lparr>current := INITIAL_STATE\<rparr>"
    by (simp add: commit_def handleReset_def effect_no_step)
  then show ?thesis
    by (simp add: handleReset_def) (simp add: INITIAL_STATE_def)
qed

text \<open>
  C8. Within a run the audit log is only revised. Each operation of the orchestrator
  (\<^verbatim>\<open>addAuditLog\<close>, \<^verbatim>\<open>updateAuditLogStatus\<close>, \<^verbatim>\<open>approve\<close>, \<^verbatim>\<open>requestEdits\<close>, every batch
  of every step) leaves a log that is at least as long and in which the existing
  entries keep their position, step name and timestamp, so that only status and
  details can differ. The same holds along every sequence of approvals, edit requests
  and task resumptions, from every configuration the application can reach.
\<close>

theorem C8_log_append_only:
  "revises (auditLog s) (auditLog (addAuditLog env n d st s))
   \<and> revises (auditLog s) (auditLog (updateAuditLogStatus n st dd s))
   \<and> revises (auditLog s) (auditLog (handleApprove s))
   \<and> revises (auditLog s) (auditLog (handleRequestEdits req s))
   \<and> (\<forall>b \<in> set (runWorkflow env snap). revises (auditLog s) (auditLog (apply_batch b s)))
   \<and> (list_all within_run evs \<longrightarrow>
        revises (auditLog (current (run env mounted before)))
          (auditLog (current (run env mounted (before @ evs)))))"
proof -
  have "workflow_tasks env (tasks (run env mounted before))"
    by (rule run_workflow_tasks) (simp add: mounted_def workflow_tasks_def)
  then have "list_all within_run evs \<longrightarrow>
        revises (auditLog (current (run env mounted before)))
          (auditLog (current (run env mounted (before @ evs))))"
    by (simp add: run_append run_revises)
  moreover have "\<forall>b \<in> set (runWorkflow env snap).
      revises (auditLog s) (auditLog (apply_batch b s))"
    by (auto simp: workflow_batch_def intro!: workflow_batch_revises)
  ultimately show ?thesis
    by (simp add: revises_append revises_updateAuditLogStatus revises_handleApprove
        revises_handleRequestEdits)
qed

theorem C8_log_append_only_witness:
  "list_all within_run [Resume 0]
   \<and> revises
        (auditLog (current (run example_env mounted [PatientSelect ''X'', Generate, Resume 0])))
        (auditLog (current (run example_env mounted
           ([PatientSelect ''X'', Generate, Resume 0] @ [Resume 0]))))
   \<and> map entry_status
        (auditLog (current (run example_env mounted [PatientSelect ''X'', Generate, Resume 0])))
       = [in_progress, in_progress]
   \<and> map entry_status
        (auditLog (current (run example_env mounted
           ([PatientSelect ''X'', Generate, Resume 0] @ [Resume 0]))))
       = [in_progress, log_error]"
proof -
  have inside: "list_all within_run [Resume 0]"
    by simp
  have "map entry_status
        (auditLog (current (run example_env mounted [PatientSelect ''X'', Generate, Resume 0])))
       = [in_progress, in_progress]"
    and "map entry_status
        (auditLog (current (run example_env mounted
           ([PatientSelect ''X'', Generate, Resume 0] @ [Resume 0]))))
       = [in_progress, log_error]"
    by code_simp+
  with inside
    C8_log_append_only [of INITIAL_STATE example_env "[]" "[]" pending None "[]" INITIAL_STATE
      "[Resume 0]" "[PatientSelect ''X'', Generate, Resume 0]"]
  show ?thesis by blast
qed

text \<open>
  C9. Neither human-decision entry point looks at the current status. From every
  state \<^verbatim>\<open>approve()\<close> sets the status to running and rewrites the entries named
  \<open>Human Review\<close> to completed with the approval note, leaving the other entries and
  fields alone; \<^verbatim>\<open>requestEdits(t)\<close> sets the status to editing and stores \<open>t\<close> in
  \<open>editRequest\<close>.
\<close>

theorem C9_decisions_unguarded:
  "status (handleApprove s) = running
   \<and> auditLog (handleApprove s) =
       map (\<lambda>log. if step log = ''Human Review''
                  then log\<lparr>entry_status := completed,
                         details := ''Clinician approved the draft summary.''\<rparr>
                  else log) (auditLog s)
   \<and> (\<forall>log \<in> set (auditLog (handleApprove s)).
         step log = ''Human Review'' \<longrightarrow> entry_status log = completed)
   \<and> handleApprove s = s\<lparr>auditLog := auditLog (handleApprove s), status := running\<rparr>
   \<and> status (handleRequestEdits t s) = editing
   \<and> editRequest (handleRequestEdits t s) = t"
  by (auto simp: handleApprove_def handleRequestEdits_def updateAuditLogStatus_def
      or_details_def)

text \<open>Witness: approval and an edit request on a run that has not even started.\<close>

theorem C9_decisions_unguarded_witness:
  "status (handleApprove (INITIAL_STATE\<lparr>auditLog := [review_entry pending ''x'']\<rparr>)) = running
   \<and> map entry_status
       (auditLog (handleApprove (INITIAL_STATE\<lparr>auditLog := [review_entry pending ''x'']\<rparr>)))
       = [completed]
   \<and> status (handleRequestEdits ''t'' (INITIAL_STATE\<lparr>auditLog := [review_entry pending ''x'']\<rparr>))
       = editing
   \<and> editRequest
       (handleRequestEdits ''t'' (INITIAL_STATE\<lparr>auditLog := [review_entry pending ''x'']\<rparr>))
       = ''t''"
  using C9_decisions_unguarded [of "INITIAL_STATE\<lparr>auditLog := [review_entry pending ''x'']\<rparr>"
      "''t''"]
  by (simp add: review_entry_def)

text \<open>
  C10. With no patient selected (\<open>patientId\<close> absent), \<^verbatim>\<open>generate()\<close> returns before
  its \<^verbatim>\<open>setState\<close>: the state is the same in every field, and since nothing is
  rendered anew no step starts and no task is added.
\<close>

theorem C10_generate_without_patient:
  assumes "patientId s = None"
  shows "handleGenerate s = s \<and> (current c = s \<longrightarrow> dispatch env c Generate = c)"
  using assms
  by (simp add: handleGenerate_def falsy_id_def commit_def effect_unchanged)

theorem C10_generate_without_patient_witness:
  "patientId INITIAL_STATE = None \<and> handleGenerate INITIAL_STATE = INITIAL_STATE
   \<and> dispatch example_env mounted Generate = mounted"
proof -
  have absent: "patientId INITIAL_STATE = None"
    by (simp add: INITIAL_STATE_def)
  have shown: "current mounted = INITIAL_STATE"
    by (simp add: mounted_def)
  from C10_generate_without_patient [OF absent, of mounted example_env] absent shown
  show ?thesis by blast
qed

end
